theory Spec2Isabelle
  imports Complex_Main
begin

section \<open>The optics core of lightbox.py\<close>

text \<open>
  A shallow embedding of the ray tracer of \<^verbatim>\<open>src/lightbox.py\<close>: the classes
  \<^verbatim>\<open>Material\<close>, \<^verbatim>\<open>Vector2\<close>, \<^verbatim>\<open>Ray\<close>, \<^verbatim>\<open>Sensor\<close> and \<^verbatim>\<open>Physics\<close>, and the methods
  \<^verbatim>\<open>Game.trace\<close> and \<^verbatim>\<open>Game.trace_color\<close>.

  Python floats are modelled as the reals: rounding, overflow and NaN are outside the
  model. Python ints are \<open>int\<close>. The one exception the modelled code can raise,
  \<^verbatim>\<open>ZeroDivisionError\<close> (a float division by zero in \<^verbatim>\<open>Physics.refract\<close> and
  \<^verbatim>\<open>Physics.fresnel_reflectance\<close>), is a value of the type \<open>error\<close>.
\<close>

datatype error = ZeroDivisionError

subsection \<open>Constants\<close>

definition MAX_RAY_DISTANCE :: real where
  "MAX_RAY_DISTANCE = 6000"

definition SENSOR_RADIUS :: real where
  "SENSOR_RADIUS = 35"

type_synonym rgb = "int \<times> int \<times> int"

definition WHITE :: rgb where "WHITE = (255, 255, 255)"
definition RED :: rgb where "RED = (255, 80, 80)"
definition GREEN :: rgb where "GREEN = (80, 255, 120)"
definition ORANGE :: rgb where "ORANGE = (255, 140, 0)"
definition YELLOW :: rgb where "YELLOW = (255, 255, 100)"
definition BLUE :: rgb where "BLUE = (80, 150, 255)"
definition VIOLET :: rgb where "VIOLET = (180, 100, 255)"

datatype ItemType =
  PLANE_MIRROR | TRIANGLE | RECTANGLE | CURVED_MIRROR | CONCAVE_LENS | CONVEX_LENS

subsection \<open>Material\<close>

record Material =
  ior_red :: real
  ior_orange :: real
  ior_yellow :: real
  ior_green :: real
  ior_blue :: real
  ior_violet :: real

text \<open>\<^verbatim>\<open>get_ior\<close> builds a dict of seven entries and reads it with \<^verbatim>\<open>iors.get(wavelength, 1.0)\<close>.\<close>

definition iors :: "Material \<Rightarrow> (string \<times> real) list" where
  "iors m =
     [(''red'', ior_red m), (''orange'', ior_orange m), (''yellow'', ior_yellow m),
      (''green'', ior_green m), (''blue'', ior_blue m), (''violet'', ior_violet m),
      (''white'', (ior_red m + ior_violet m) / 2)]"

definition get_ior :: "Material \<Rightarrow> string \<Rightarrow> real" where
  "get_ior m wavelength =
     (case map_of (iors m) wavelength of None \<Rightarrow> 1.0 | Some v \<Rightarrow> v)"

definition set_base_ior :: "Material \<Rightarrow> real \<Rightarrow> Material" where
  "set_base_ior m base =
     m\<lparr>ior_red := base,
       ior_orange := base + 0.025,
       ior_yellow := base + 0.050,
       ior_green := base + 0.075,
       ior_blue := base + 0.100,
       ior_violet := base + 0.125\<rparr>"

definition AIR :: Material where
  "AIR = \<lparr>ior_red = 1.000, ior_orange = 1.000, ior_yellow = 1.000,
          ior_green = 1.000, ior_blue = 1.000, ior_violet = 1.000\<rparr>"

text \<open>
  \<^verbatim>\<open>GLASS\<close> is a module-level object that \<^verbatim>\<open>set_base_ior\<close> mutates between frames;
  \<open>GLASS0\<close> is its value at import time. The tracer takes the current value as the
  parameter \<open>G\<close>.
\<close>

definition GLASS0 :: Material where
  "GLASS0 = \<lparr>ior_red = 1.500, ior_orange = 1.525, ior_yellow = 1.550,
             ior_green = 1.575, ior_blue = 1.600, ior_violet = 1.625\<rparr>"

definition SPECTRUM :: "(string \<times> rgb \<times> real) list" where
  "SPECTRUM =
     [(''red'', RED, 1.50), (''orange'', ORANGE, 1.515), (''yellow'', YELLOW, 1.530),
      (''green'', GREEN, 1.545), (''blue'', BLUE, 1.560), (''violet'', VIOLET, 1.575)]"

subsection \<open>Vector2\<close>

datatype Vector2 = Vector2 (vx: real) (vy: real)

definition add_vec :: "Vector2 \<Rightarrow> Vector2 \<Rightarrow> Vector2" where
  "add_vec a b = Vector2 (vx a + vx b) (vy a + vy b)"

definition sub_vec :: "Vector2 \<Rightarrow> Vector2 \<Rightarrow> Vector2" where
  "sub_vec a b = Vector2 (vx a - vx b) (vy a - vy b)"

definition mul_vec :: "Vector2 \<Rightarrow> real \<Rightarrow> Vector2" where
  "mul_vec a s = Vector2 (vx a * s) (vy a * s)"

definition dot :: "Vector2 \<Rightarrow> Vector2 \<Rightarrow> real" where
  "dot a b = vx a * vx b + vy a * vy b"

definition length_vec :: "Vector2 \<Rightarrow> real" where
  "length_vec a = sqrt ((vx a)\<^sup>2 + (vy a)\<^sup>2)"

definition normalize_vec :: "Vector2 \<Rightarrow> Vector2" where
  "normalize_vec a =
     (let l = length_vec a in if l > 0 then Vector2 (vx a / l) (vy a / l) else Vector2 0 0)"

definition neg_vec :: "Vector2 \<Rightarrow> Vector2" where
  \<comment> \<open>the inline \<^verbatim>\<open>Vector2(-n.x, -n.y)\<close>\<close>
  "neg_vec n = Vector2 (- vx n) (- vy n)"

subsection \<open>Ray\<close>

record Ray =
  origin :: Vector2
  direction :: Vector2
  color :: rgb
  wavelength :: string
  is_white :: bool
  path :: "(real \<times> real) list"
  active :: bool
  bounces :: int
  material :: Material
  intensity :: real
  distance_traveled :: real

definition Ray_init :: "Vector2 \<Rightarrow> Vector2 \<Rightarrow> rgb \<Rightarrow> string \<Rightarrow> bool \<Rightarrow> real \<Rightarrow> Ray" where
  "Ray_init pos dir col wave white inten =
     \<lparr>origin = pos, direction = normalize_vec dir, color = col, wavelength = wave,
      is_white = (white \<or> wave = ''white''), path = [(vx pos, vy pos)], active = True,
      bounces = 0, material = AIR, intensity = inten, distance_traveled = 0\<rparr>"

definition get_endpoint :: "Ray \<Rightarrow> Vector2" where
  "get_endpoint r =
     (let remaining = max 0 (1.0 - distance_traveled r / MAX_RAY_DISTANCE);
          max_dist = MAX_RAY_DISTANCE * remaining
      in add_vec (origin r) (mul_vec (direction r) (min 2000 max_dist)))"

subsection \<open>Item\<close>

text \<open>
  Of an \<^verbatim>\<open>Item\<close> the tracer reads the type, the position and the outline \<^verbatim>\<open>shape\<close>
  (which \<^verbatim>\<open>update_shape\<close> computes from the pose); the outline is taken as given.
\<close>

record Item =
  item_type :: ItemType
  item_pos :: Vector2
  shape :: "Vector2 list"

definition get_segments :: "Item \<Rightarrow> (Vector2 \<times> Vector2) list" where
  "get_segments it =
     map (\<lambda>i. (shape it ! i, shape it ! ((i + 1) mod length (shape it))))
       [0 ..< length (shape it)]"

subsection \<open>Sensor\<close>

record Sensor =
  sensor_pos :: Vector2
  sensor_radius :: real
  sensor_color :: rgb
  sensor_tol :: int
  sensor_active :: bool
  was_active :: bool
  sensor_is_white :: bool
  pulse :: real

definition Sensor_init :: "real \<Rightarrow> real \<Rightarrow> rgb \<Rightarrow> int \<Rightarrow> Sensor" where
  "Sensor_init px py col tol =
     \<lparr>sensor_pos = Vector2 px py, sensor_radius = SENSOR_RADIUS, sensor_color = col,
      sensor_tol = tol, sensor_active = False, was_active = False,
      sensor_is_white = (col = WHITE), pulse = 0\<rparr>"

text \<open>The loop of \<^verbatim>\<open>check_hit\<close> over the consecutive pairs of path points.\<close>

fun check_segments :: "Sensor \<Rightarrow> (real \<times> real) list \<Rightarrow> bool" where
  "check_segments s (a # b # rest) =
     (let p1 = Vector2 (fst a) (snd a);
          p2 = Vector2 (fst b) (snd b);
          line = sub_vec p2 p1;
          len_sq = dot line line
      in if len_sq < 0.0001 then check_segments s (b # rest)
         else
           let t = max 0 (min 1 (dot (sub_vec (sensor_pos s) p1) line / len_sq));
               closest = add_vec p1 (mul_vec line t)
           in if length_vec (sub_vec (sensor_pos s) closest) < sensor_radius s then True
              else check_segments s (b # rest))"
| "check_segments s _ = False"

definition check_hit :: "Sensor \<Rightarrow> Ray \<Rightarrow> bool" where
  "check_hit s ray =
     (if length (path ray) < 2 \<or> intensity ray < 0.2 then False
      else check_segments s (path ray))"

definition color_match :: "Sensor \<Rightarrow> Ray \<Rightarrow> bool" where
  "color_match s ray =
     (if sensor_is_white s then is_white ray
      else if is_white ray then False
      else (case (color ray, sensor_color s) of
              ((r0, r1, r2), (c0, c1, c2)) \<Rightarrow>
                \<bar>r0 - c0\<bar> \<le> sensor_tol s \<and> \<bar>r1 - c1\<bar> \<le> sensor_tol s
                \<and> \<bar>r2 - c2\<bar> \<le> sensor_tol s))"

definition fmod :: "real \<Rightarrow> real \<Rightarrow> real" where
  \<comment> \<open>Python's \<^verbatim>\<open>a % b\<close> on floats, for \<open>b > 0\<close>\<close>
  "fmod a b = a - b * of_int \<lfloor>a / b\<rfloor>"

text \<open>
  \<^verbatim>\<open>Sensor.update\<close> mutates the sensor and returns whether this call is a rising edge:
  the model returns the new sensor and that flag.
\<close>

definition update :: "Sensor \<Rightarrow> Ray list \<Rightarrow> Sensor \<times> bool" where
  "update s rays =
     (let s1 = s\<lparr>was_active := sensor_active s\<rparr>;
          s2 = s1\<lparr>sensor_active := False\<rparr>;
          s3 = fold (\<lambda>ray s'.
                  if intensity ray \<ge> 0.2 \<and> check_hit s' ray \<and> color_match s' ray
                  then s'\<lparr>sensor_active := True\<rparr> else s') rays s2;
          s4 = (if sensor_active s3 then s3\<lparr>pulse := fmod (pulse s3 + 0.1) (2 * pi)\<rparr>
                else s3)
      in (s4, sensor_active s4 \<and> \<not> was_active s4))"

subsection \<open>Physics\<close>

definition intersect :: "Vector2 \<Rightarrow> Vector2 \<Rightarrow> Vector2 \<Rightarrow> Vector2 \<Rightarrow> (Vector2 \<times> real) option" where
  "intersect p1 p2 p3 p4 =
     (let d = (vx p1 - vx p2) * (vy p3 - vy p4) - (vy p1 - vy p2) * (vx p3 - vx p4)
      in if \<bar>d\<bar> < 0.0001 then None
         else
           let t = ((vx p1 - vx p3) * (vy p3 - vy p4) - (vy p1 - vy p3) * (vx p3 - vx p4)) / d;
               u = - ((vx p1 - vx p2) * (vy p1 - vy p3) - (vy p1 - vy p2) * (vx p1 - vx p3)) / d
           in if 0 \<le> t \<and> t \<le> 1 \<and> 0 \<le> u \<and> u \<le> 1
              then let pt = Vector2 (vx p1 + t * (vx p2 - vx p1)) (vy p1 + t * (vy p2 - vy p1))
                   in Some (pt, length_vec (sub_vec pt p1))
              else None)"

definition reflect :: "Vector2 \<Rightarrow> Vector2 \<Rightarrow> Vector2" where
  "reflect inc n =
     (let inc' = normalize_vec inc; n' = normalize_vec n
      in normalize_vec (sub_vec inc' (mul_vec n' (2 * dot inc' n'))))"

text \<open>
  \<^verbatim>\<open>refract\<close> returns \<^verbatim>\<open>None\<close> on total internal reflection; the division \<^verbatim>\<open>n1 / n2\<close>
  raises when \<^verbatim>\<open>n2\<close> is zero.
\<close>

definition refract :: "Vector2 \<Rightarrow> Vector2 \<Rightarrow> real \<Rightarrow> real \<Rightarrow> error + Vector2 option" where
  "refract inc n n1 n2 =
     (let inc' = normalize_vec inc;
          n' = normalize_vec n;
          n'' = (if dot n' inc' > 0 then neg_vec n' else n')
      in if n2 = 0 then Inl ZeroDivisionError
         else
           let ratio = n1 / n2;
               cos_i = - dot n'' inc';
               sin_t2 = ratio\<^sup>2 * (1 - cos_i\<^sup>2)
           in if sin_t2 > 1 then Inr None
              else
                let cos_t = sqrt (1 - sin_t2)
                in Inr (Some (normalize_vec
                     (add_vec (mul_vec inc' ratio) (mul_vec n'' (ratio * cos_i - cos_t))))))"

definition normal :: "Vector2 \<Rightarrow> Vector2 \<Rightarrow> Vector2" where
  "normal p1 p2 =
     (let dx = vx p2 - vx p1; dy = vy p2 - vy p1; l = sqrt (dx * dx + dy * dy)
      in if l > 0 then Vector2 (- dy / l) (dx / l) else Vector2 0 1)"

definition fresnel_reflectance :: "Vector2 \<Rightarrow> Vector2 \<Rightarrow> real \<Rightarrow> real \<Rightarrow> error + real" where
  "fresnel_reflectance incident nrm n1 n2 =
     (let incident' = normalize_vec incident;
          normal' = normalize_vec nrm;
          cos_i = - dot normal' incident'
      in if n1 > n2 \<and> n2 = 0 then Inl ZeroDivisionError
         else if n1 > n2 \<and> (n1 / n2)\<^sup>2 * (1 - cos_i\<^sup>2) > 1.0 then Inr 1.0
         else if n1 + n2 = 0 then Inl ZeroDivisionError
         else
           let r0 = ((n1 - n2) / (n1 + n2))\<^sup>2
           in Inr (r0 + (1 - r0) * (1 - cos_i) ^ 5))"

subsection \<open>Game.trace and Game.trace_color\<close>

definition get_intensity_at_distance :: "real \<Rightarrow> real" where
  "get_intensity_at_distance distance = max 0.0 (1.0 - distance / MAX_RAY_DISTANCE)"

text \<open>
  The nearest-hit search, the same text in both routines but for the minimum-distance
  guard (\<^verbatim>\<open>0.1\<close> in \<^verbatim>\<open>trace\<close>, \<^verbatim>\<open>1.0\<close> in \<^verbatim>\<open>trace_color\<close>), here the parameter \<open>g\<close>.
  The running best is \<open>(best_dist, best_pt, best_n, best_item)\<close>; \<open>None\<close> stands for
  \<^verbatim>\<open>best_dist = inf\<close>, \<^verbatim>\<open>best_pt = None\<close>.
\<close>

type_synonym hit = "real \<times> Vector2 \<times> Vector2 \<times> Item"

definition scan_segment :: "real \<Rightarrow> Ray \<Rightarrow> Item \<Rightarrow> Vector2 \<times> Vector2 \<Rightarrow> hit option \<Rightarrow> hit option" where
  "scan_segment g ray item s best =
     (case intersect (origin ray) (get_endpoint ray) (fst s) (snd s) of
        None \<Rightarrow> best
      | Some (pt, d) \<Rightarrow>
          if g < d \<and> (case best of None \<Rightarrow> True | Some (best_dist, _) \<Rightarrow> d < best_dist)
          then let n = normal (fst s) (snd s);
                   n' = (if dot n (direction ray) > 0 then neg_vec n else n)
               in Some (d, pt, n', item)
          else best)"

definition nearest_hit :: "real \<Rightarrow> Item list \<Rightarrow> Ray \<Rightarrow> hit option" where
  "nearest_hit g items ray =
     fold (\<lambda>item best. fold (scan_segment g ray item) (get_segments item) best) items None"

text \<open>The branch taken when no segment is hit (the same text in both routines).\<close>

definition no_hit :: "Ray \<Rightarrow> Ray" where
  "no_hit ray =
     (let end0 = add_vec (origin ray) (mul_vec (direction ray) 2000);
          ray1 = ray\<lparr>distance_traveled := distance_traveled ray + 2000\<rparr>
      in if distance_traveled ray1 \<ge> MAX_RAY_DISTANCE
         then let remaining = MAX_RAY_DISTANCE - (distance_traveled ray1 - 2000)
              in if remaining > 0
                 then let end1 = add_vec (origin ray1) (mul_vec (direction ray1) remaining)
                      in ray1\<lparr>path := path ray1 @ [(vx end1, vy end1)], active := False\<rparr>
                 else ray1\<lparr>active := False\<rparr>
         else ray1\<lparr>path := path ray1 @ [(vx end0, vy end0)], active := False\<rparr>)"

text \<open>
  A sibling ray as the routines build it: \<^verbatim>\<open>Ray(Vector2(best_pt.x, best_pt.y), dir, color,
  wave, white, intensity)\<close>, then \<^verbatim>\<open>distance_traveled\<close> and \<^verbatim>\<open>bounces\<close> taken from the parent.
\<close>

definition sibling :: "Ray \<Rightarrow> Vector2 \<Rightarrow> Vector2 \<Rightarrow> rgb \<Rightarrow> string \<Rightarrow> bool \<Rightarrow> real \<Rightarrow> Ray" where
  "sibling ray best_pt dir col wave white inten =
     (Ray_init (Vector2 (vx best_pt) (vy best_pt)) dir col wave white inten)
       \<lparr>distance_traveled := distance_traveled ray, bounces := bounces ray + 1\<rparr>"

text \<open>
  What one pass of the loop body hands to the enclosing loop: the reflected sibling, if
  one is spawned, with the routine that traces it (it is appended to \<^verbatim>\<open>self.rays\<close> and
  then traced); the dispersed coloured rays (each traced by \<^verbatim>\<open>trace_color\<close> and then
  appended); the ray after the pass; and whether the loop goes on (\<open>False\<close> for
  \<^verbatim>\<open>break\<close> and \<^verbatim>\<open>return\<close>).
\<close>

datatype spawn = By_trace Ray | By_trace_color Ray

type_synonym step = "spawn option \<times> Ray list \<times> Ray \<times> bool"

text \<open>The loop over \<^verbatim>\<open>SPECTRUM\<close> that splits a white ray entering a dielectric.\<close>

fun disperse :: "Material \<Rightarrow> Ray \<Rightarrow> Vector2 \<Rightarrow> Vector2 \<Rightarrow> real \<Rightarrow> (string \<times> rgb \<times> real) list
    \<Rightarrow> error + Ray list" where
  "disperse G ray best_pt best_n T [] = Inr []"
| "disperse G ray best_pt best_n T ((cname, ccol, ior) # bands) =
     (case refract (direction ray) best_n (get_ior AIR cname) (get_ior G cname) of
        Inl e \<Rightarrow> Inl e
      | Inr new_dir \<Rightarrow>
          (case disperse G ray best_pt best_n T bands of
             Inl e \<Rightarrow> Inl e
           | Inr rest \<Rightarrow>
               (case new_dir of
                  None \<Rightarrow> Inr rest
                | Some d \<Rightarrow>
                    Inr ((sibling ray best_pt d ccol cname False (intensity ray * T))
                           \<lparr>material := G\<rparr> # rest))))"

text \<open>
  The \<^verbatim>\<open>TRIANGLE\<close>/\<^verbatim>\<open>RECTANGLE\<close> branch of \<^verbatim>\<open>trace\<close>; \<open>ray\<close> is the ray after the hit
  point was recorded.
\<close>

definition trace_polygon :: "Material \<Rightarrow> Ray \<Rightarrow> Vector2 \<Rightarrow> Vector2 \<Rightarrow> Item \<Rightarrow> error + step" where
  "trace_polygon G ray best_pt best_n best_item =
     (let entering = (dot best_n (sub_vec (item_pos best_item) best_pt) < 0);
          n1 = (if is_white ray then get_ior (material ray) ''white''
                else get_ior (material ray) (wavelength ray));
          n2 = (if is_white ray then get_ior G ''white''
                else if entering then get_ior G (wavelength ray)
                else get_ior AIR (wavelength ray))
      in case fresnel_reflectance (direction ray) best_n n1 n2 of
           Inl e \<Rightarrow> Inl e
         | Inr R \<Rightarrow>
             let T = 1.0 - R;
                 refl_ray = (if R > 0.01 \<and> intensity ray * R > 0.01
                         then Some (By_trace (sibling ray best_pt (reflect (direction ray) best_n)
                                 (color ray) (wavelength ray) (is_white ray) (intensity ray * R)))
                         else None)
             in if T > 0.01 \<and> intensity ray * T > 0.01
                then if is_white ray \<and> entering
                     then (case disperse G ray best_pt best_n T SPECTRUM of
                             Inl e \<Rightarrow> Inl e
                           | Inr news \<Rightarrow> Inr (refl_ray, news, ray\<lparr>active := False\<rparr>, False))
                     else
                       let next_mat = (if material ray = AIR \<and> entering then G else AIR)
                       in case refract (direction ray) best_n n1 n2 of
                            Inl e \<Rightarrow> Inl e
                          | Inr None \<Rightarrow> Inr (refl_ray, [], ray\<lparr>active := False\<rparr>, False)
                          | Inr (Some new_dir) \<Rightarrow>
                              Inr (refl_ray, [],
                                   ray\<lparr>direction := new_dir, material := next_mat,
                                       intensity := intensity ray * T,
                                       bounces := bounces ray + 1\<rparr>, True)
                else Inr (refl_ray, [], ray\<lparr>active := False\<rparr>, False))"

text \<open>The last branch of \<^verbatim>\<open>trace\<close>, taken for the two lens types.\<close>

definition trace_lens :: "Material \<Rightarrow> Ray \<Rightarrow> Vector2 \<Rightarrow> Vector2 \<Rightarrow> Item \<Rightarrow> error + step" where
  "trace_lens G ray best_pt best_n best_item =
     (let entering = (dot best_n (sub_vec (item_pos best_item) best_pt) < 0)
      in if is_white ray \<and> entering
         then
           (case fresnel_reflectance (direction ray) best_n
                   (get_ior AIR ''white'') (get_ior G ''white'') of
              Inl e \<Rightarrow> Inl e
            | Inr R \<Rightarrow>
                let T = 1.0 - R;
                    refl_ray = (if R > 0.01
                            then Some (By_trace (sibling ray best_pt
                                    (reflect (direction ray) best_n)
                                    WHITE ''white'' True (intensity ray * R)))
                            else None)
                in if T > 0.01
                   then (case disperse G ray best_pt best_n T SPECTRUM of
                           Inl e \<Rightarrow> Inl e
                         | Inr news \<Rightarrow> Inr (refl_ray, news, ray\<lparr>active := False\<rparr>, False))
                   else Inr (refl_ray, [], ray, False))
         else
           let n1 = (if material ray = G \<and> \<not> entering then get_ior G (wavelength ray)
                     else if entering then get_ior AIR (wavelength ray)
                     else get_ior G (wavelength ray));
               n2 = (if material ray = G \<and> \<not> entering then get_ior AIR (wavelength ray)
                     else if entering then get_ior G (wavelength ray)
                     else get_ior AIR (wavelength ray));
               ray2 = (if material ray = G \<and> \<not> entering then ray
                       else if entering then ray\<lparr>material := G\<rparr>
                       else ray\<lparr>material := AIR\<rparr>)
           in case fresnel_reflectance (direction ray2) best_n n1 n2 of
                Inl e \<Rightarrow> Inl e
              | Inr R \<Rightarrow>
                  let T = 1.0 - R;
                      refl_ray = (if R > 0.01
                              then Some (By_trace_color (sibling ray2 best_pt
                                      (reflect (direction ray2) best_n)
                                      (color ray2) (wavelength ray2) False (intensity ray2 * R)))
                              else None)
                  in if T > 0.01
                     then (case refract (direction ray2) best_n n1 n2 of
                             Inl e \<Rightarrow> Inl e
                           | Inr None \<Rightarrow> Inr (refl_ray, [], ray2\<lparr>active := False\<rparr>, False)
                           | Inr (Some new_dir) \<Rightarrow>
                               Inr (refl_ray, [],
                                    ray2\<lparr>direction := new_dir,
                                         intensity := intensity ray2 * T,
                                         bounces := bounces ray2 + 1\<rparr>, True))
                     else Inr (refl_ray, [], ray2\<lparr>active := False\<rparr>, False))"

text \<open>One pass of the \<^verbatim>\<open>for\<close> loop of \<^verbatim>\<open>trace\<close>.\<close>

definition trace_step :: "real \<Rightarrow> Material \<Rightarrow> Item list \<Rightarrow> Ray \<Rightarrow> error + step" where
  "trace_step g G items ray =
     (if \<not> active ray \<or> bounces ray \<ge> 10 then Inr (None, [], ray, False)
      else if distance_traveled ray \<ge> MAX_RAY_DISTANCE
      then Inr (None, [], ray\<lparr>active := False\<rparr>, False)
      else
        case nearest_hit g items ray of
          None \<Rightarrow> Inr (None, [], no_hit ray, True)
        | Some (best_dist, best_pt, best_n, best_item) \<Rightarrow>
            let ray1 = ray\<lparr>path := path ray @ [(vx best_pt, vy best_pt)],
                           distance_traveled := distance_traveled ray + best_dist,
                           origin := best_pt\<rparr>;
                current_intensity = get_intensity_at_distance (distance_traveled ray1)
            in if current_intensity \<le> 0.01 then Inr (None, [], ray1\<lparr>active := False\<rparr>, False)
               else if item_type best_item \<in> set [PLANE_MIRROR, CURVED_MIRROR]
               then Inr (None, [],
                         ray1\<lparr>direction := reflect (direction ray1) best_n,
                              bounces := bounces ray1 + 1\<rparr>, True)
               else if item_type best_item \<in> set [TRIANGLE, RECTANGLE]
               then trace_polygon G ray1 best_pt best_n best_item
               else trace_lens G ray1 best_pt best_n best_item)"

text \<open>
  The two dielectric branches of \<^verbatim>\<open>trace_color\<close> (polygon and lens) read alike but for
  the way \<^verbatim>\<open>n1\<close> and \<^verbatim>\<open>n2\<close> are chosen. A pass of \<^verbatim>\<open>trace_color\<close> spawns at most the
  reflected sibling, which \<^verbatim>\<open>trace_color\<close> itself traces.
\<close>

type_synonym color_step = "Ray option \<times> Ray \<times> bool"

definition trace_color_dielectric :: "Material \<Rightarrow> Ray \<Rightarrow> Vector2 \<Rightarrow> Vector2 \<Rightarrow> bool \<Rightarrow> real \<Rightarrow> real
    \<Rightarrow> error + color_step" where
  "trace_color_dielectric G ray best_pt best_n entering n1 n2 =
     (case fresnel_reflectance (direction ray) best_n n1 n2 of
        Inl e \<Rightarrow> Inl e
      | Inr R \<Rightarrow>
          let T = 1.0 - R;
              refl_ray = (if R > 0.01
                      then Some (sibling ray best_pt (reflect (direction ray) best_n)
                              (color ray) (wavelength ray) False (intensity ray * R))
                      else None)
          in if T > 0.01
             then (case refract (direction ray) best_n n1 n2 of
                     Inl e \<Rightarrow> Inl e
                   | Inr None \<Rightarrow> Inr (refl_ray, ray\<lparr>active := False\<rparr>, False)
                   | Inr (Some new_dir) \<Rightarrow>
                       Inr (refl_ray,
                            ray\<lparr>direction := new_dir,
                                intensity := intensity ray * T,
                                material := (if material ray = AIR \<and> entering then G else AIR),
                                bounces := bounces ray + 1\<rparr>, True))
             else Inr (refl_ray, ray\<lparr>active := False\<rparr>, False))"

text \<open>One pass of the \<^verbatim>\<open>for\<close> loop of \<^verbatim>\<open>trace_color\<close>.\<close>

definition trace_color_step :: "real \<Rightarrow> Material \<Rightarrow> Item list \<Rightarrow> Ray \<Rightarrow> error + color_step" where
  "trace_color_step g G items ray =
     (if \<not> active ray \<or> bounces ray \<ge> 10 then Inr (None, ray, False)
      else if distance_traveled ray \<ge> MAX_RAY_DISTANCE
      then Inr (None, ray\<lparr>active := False\<rparr>, False)
      else
        case nearest_hit g items ray of
          None \<Rightarrow> Inr (None, no_hit ray, False)
        | Some (best_dist, best_pt, best_n, best_item) \<Rightarrow>
            let ray1 = ray\<lparr>path := path ray @ [(vx best_pt, vy best_pt)],
                           distance_traveled := distance_traveled ray + best_dist,
                           origin := best_pt\<rparr>
            in if item_type best_item \<in> set [PLANE_MIRROR, CURVED_MIRROR]
               then Inr (None,
                         ray1\<lparr>direction := reflect (direction ray1) best_n,
                              bounces := bounces ray1 + 1\<rparr>, True)
               else
                 let entering = (dot best_n (sub_vec (item_pos best_item) best_pt) < 0)
                 in if item_type best_item \<in> set [TRIANGLE, RECTANGLE]
                    then trace_color_dielectric G ray1 best_pt best_n entering
                           (get_ior (material ray1) (wavelength ray1))
                           (if entering then get_ior G (wavelength ray1)
                            else get_ior AIR (wavelength ray1))
                    else trace_color_dielectric G ray1 best_pt best_n entering
                           (if material ray1 = G \<and> \<not> entering then get_ior G (wavelength ray1)
                            else if entering then get_ior AIR (wavelength ray1)
                            else get_ior G (wavelength ray1))
                           (if material ray1 = G \<and> \<not> entering then get_ior AIR (wavelength ray1)
                            else if entering then get_ior G (wavelength ray1)
                            else get_ior AIR (wavelength ray1)))"

subsection \<open>The loops\<close>

text \<open>
  A routine returns the ray it was given, as it mutated it, and the rays it appended to
  \<^verbatim>\<open>self.rays\<close>, in the order of the appends (a sibling is the same object in the list
  and in the call that traces it, so the list holds its final state). The routines read
  nothing of \<^verbatim>\<open>self.rays\<close>, so the calls compose as below: \<open>traced\<close> is
  ``append, then trace'', and \<open>then_rest\<close> runs the rest of the pass after a call,
  unless that call raised.
\<close>

type_synonym result = "error + Ray \<times> Ray list"

definition traced :: "result \<Rightarrow> error + Ray list" where
  "traced a = (case a of Inl e \<Rightarrow> Inl e | Inr (r, out) \<Rightarrow> Inr (r # out))"

definition then_rest :: "error + Ray list \<Rightarrow> result \<Rightarrow> result" where
  "then_rest a b =
     (case a of
        Inl e \<Rightarrow> Inl e
      | Inr out1 \<Rightarrow> (case b of Inl e \<Rightarrow> Inl e | Inr (r, out2) \<Rightarrow> Inr (r, out1 @ out2)))"

lemma trace_color_dielectric_spawn:
  "trace_color_dielectric G ray bp bn e n1 n2 = Inr (Some r, ray', cont)
   \<Longrightarrow> bounces r = bounces ray + 1"
  by (auto simp: trace_color_dielectric_def sibling_def Let_def
      split: sum.splits if_splits option.splits)

lemma trace_color_dielectric_bounces:
  "trace_color_dielectric G ray bp bn e n1 n2 = Inr (sp, ray', cont)
   \<Longrightarrow> bounces ray \<le> bounces ray'"
  by (auto simp: trace_color_dielectric_def Let_def split: sum.splits if_splits option.splits)

lemma trace_color_step_spawn:
  "trace_color_step g G items ray = Inr (Some r, ray', cont)
   \<Longrightarrow> bounces r = bounces ray + 1 \<and> bounces ray < 10"
  by (auto simp: trace_color_step_def Let_def split: if_splits option.splits
      dest!: trace_color_dielectric_spawn)

lemma trace_color_step_bounces:
  "trace_color_step g G items ray = Inr (sp, ray', cont) \<Longrightarrow> bounces ray \<le> bounces ray'"
  by (auto simp: trace_color_step_def Let_def no_hit_def split: if_splits option.splits
      dest!: trace_color_dielectric_bounces)

text \<open>
  \<^verbatim>\<open>for _ in range(k)\<close> around \<open>trace_color_step\<close>; the sibling is traced by
  \<^verbatim>\<open>self.trace_color\<close>, that is with guard \<^verbatim>\<open>1.0\<close> and ten passes.
\<close>

function trace_color_loop :: "real \<Rightarrow> Material \<Rightarrow> Item list \<Rightarrow> nat \<Rightarrow> Ray \<Rightarrow> result" where
  "trace_color_loop g G items 0 ray = Inr (ray, [])"
| "trace_color_loop g G items (Suc k) ray =
     (case trace_color_step g G items ray of
        Inl e \<Rightarrow> Inl e
      | Inr (sp, ray', cont) \<Rightarrow>
          then_rest
            (case sp of
               None \<Rightarrow> Inr []
             | Some r \<Rightarrow> traced (trace_color_loop 1.0 G items 10 r))
            (if cont then trace_color_loop g G items k ray' else Inr (ray', [])))"
  by pat_completeness auto
termination
proof (relation "measures [\<lambda>(g, G, items, k, ray). nat (10 - bounces ray),
                           \<lambda>(g, G, items, k, ray). k]", goal_cases)
  case 1
  show ?case by simp
next
  case (2 g G items k ray x sp y ray' cont r)
  then show ?case
    using trace_color_step_spawn[of g G items ray r ray' cont] by auto
next
  case (3 g G items k ray x sp y ray' cont)
  then show ?case
    using trace_color_step_bounces[of g G items ray sp ray' cont] by auto
qed

definition trace_color :: "Material \<Rightarrow> Item list \<Rightarrow> Ray \<Rightarrow> result" where
  "trace_color G items ray = trace_color_loop 1.0 G items 10 ray"

text \<open>The dispersed rays of a pass of \<^verbatim>\<open>trace\<close>: each is traced, then appended.\<close>

fun trace_dispersed :: "Material \<Rightarrow> Item list \<Rightarrow> Ray list \<Rightarrow> error + Ray list" where
  "trace_dispersed G items [] = Inr []"
| "trace_dispersed G items (new_ray # news) =
     (case trace_color G items new_ray of
        Inl e \<Rightarrow> Inl e
      | Inr (r, out) \<Rightarrow>
          (case trace_dispersed G items news of
             Inl e \<Rightarrow> Inl e
           | Inr rest \<Rightarrow> Inr (out @ [r] @ rest)))"

lemma disperse_bounces:
  "disperse G ray bp bn T bands = Inr news \<Longrightarrow> r \<in> set news \<Longrightarrow> bounces r = bounces ray + 1"
  by (induction bands arbitrary: news)
     (auto simp: sibling_def split: sum.splits option.splits)

lemma trace_polygon_spawn:
  "trace_polygon G ray bp bn it = Inr (Some (By_trace r), news, ray', cont)
   \<Longrightarrow> bounces r = bounces ray + 1"
  by (auto simp: trace_polygon_def sibling_def Let_def
      split: sum.splits if_splits option.splits)

lemma trace_polygon_bounces:
  "trace_polygon G ray bp bn it = Inr (sp, news, ray', cont) \<Longrightarrow> bounces ray \<le> bounces ray'"
  by (auto simp: trace_polygon_def Let_def split: sum.splits if_splits option.splits)

lemma trace_lens_spawn:
  "trace_lens G ray bp bn it = Inr (Some (By_trace r), news, ray', cont)
   \<Longrightarrow> bounces r = bounces ray + 1"
  by (auto simp: trace_lens_def sibling_def Let_def
      split: sum.splits if_splits option.splits)

lemma trace_lens_bounces:
  "trace_lens G ray bp bn it = Inr (sp, news, ray', cont) \<Longrightarrow> bounces ray \<le> bounces ray'"
  by (auto simp: trace_lens_def Let_def split: sum.splits if_splits option.splits)

lemma trace_step_spawn:
  "trace_step g G items ray = Inr (Some (By_trace r), news, ray', cont)
   \<Longrightarrow> bounces r = bounces ray + 1 \<and> bounces ray < 10"
  by (auto simp: trace_step_def Let_def split: if_splits option.splits
      dest!: trace_polygon_spawn trace_lens_spawn)

lemma trace_step_bounces:
  "trace_step g G items ray = Inr (sp, news, ray', cont) \<Longrightarrow> bounces ray \<le> bounces ray'"
  by (auto simp: trace_step_def Let_def no_hit_def split: if_splits option.splits
      dest!: trace_polygon_bounces trace_lens_bounces)

text \<open>
  \<^verbatim>\<open>for _ in range(k)\<close> around \<open>trace_step\<close>; a sibling is traced by \<^verbatim>\<open>self.trace\<close>
  (guard \<^verbatim>\<open>0.1\<close>, twenty passes) or by \<^verbatim>\<open>self.trace_color\<close>, as the pass says.
\<close>

function trace_loop :: "real \<Rightarrow> Material \<Rightarrow> Item list \<Rightarrow> nat \<Rightarrow> Ray \<Rightarrow> result" where
  "trace_loop g G items 0 ray = Inr (ray, [])"
| "trace_loop g G items (Suc k) ray =
     (case trace_step g G items ray of
        Inl e \<Rightarrow> Inl e
      | Inr (sp, news, ray', cont) \<Rightarrow>
          then_rest
            (case sp of
               None \<Rightarrow> Inr []
             | Some (By_trace r) \<Rightarrow> traced (trace_loop 0.1 G items 20 r)
             | Some (By_trace_color r) \<Rightarrow> traced (trace_color G items r))
            (then_rest (trace_dispersed G items news)
               (if cont then trace_loop g G items k ray' else Inr (ray', []))))"
  by pat_completeness auto
termination
proof (relation "measures [\<lambda>(g, G, items, k, ray). nat (10 - bounces ray),
                           \<lambda>(g, G, items, k, ray). k]", goal_cases)
  case 1
  show ?case by simp
next
  case (2 g G items k ray x sp y news z ray' cont s r)
  then show ?case
    using trace_step_spawn[of g G items ray r news ray' cont] by auto
next
  case (3 g G items k ray x sp y news z ray' cont)
  then show ?case
    using trace_step_bounces[of g G items ray sp news ray' cont] by auto
qed

definition trace :: "Material \<Rightarrow> Item list \<Rightarrow> Ray \<Rightarrow> result" where
  "trace G items ray = trace_loop 0.1 G items 20 ray"

section \<open>Properties\<close>

subsection \<open>Vectors\<close>

lemma dot_neg_left: "dot (neg_vec a) b = - dot a b"
  by (simp add: dot_def neg_vec_def)

lemma normalize_unit: "length_vec a = 1 \<Longrightarrow> normalize_vec a = a"
  by (simp add: normalize_vec_def Let_def)

lemma length_vec_axis: "length_vec (Vector2 a 0) = \<bar>a\<bar>" "length_vec (Vector2 0 b) = \<bar>b\<bar>"
  by (simp_all add: length_vec_def)

lemma normal_vertical:
  "normal (Vector2 a b) (Vector2 a c) =
     (if \<bar>c - b\<bar> > 0 then Vector2 (- (c - b) / \<bar>c - b\<bar>) 0 else Vector2 0 1)"
  by (simp add: normal_def Let_def)

lemmas vec_simps = add_vec_def sub_vec_def mul_vec_def dot_def neg_vec_def normalize_vec_def

lemma reflect_head_on:
  "reflect (Vector2 1 0) (Vector2 (-1) 0) = Vector2 (-1) 0"
  "reflect (Vector2 (-1) 0) (Vector2 1 0) = Vector2 1 0"
  by (simp_all add: reflect_def vec_simps Let_def length_vec_axis)

text \<open>A normalised vector has length one or zero, so two of them have a dot product in \<open>[-1, 1]\<close>.\<close>

lemma normalize_vec_sq:
  "(vx (normalize_vec a))\<^sup>2 + (vy (normalize_vec a))\<^sup>2 \<le> 1"
proof (cases "length_vec a > 0")
  case True
  have l2: "(length_vec a)\<^sup>2 = (vx a)\<^sup>2 + (vy a)\<^sup>2"
    by (simp add: length_vec_def)
  have "(vx a / length_vec a)\<^sup>2 + (vy a / length_vec a)\<^sup>2
        = ((vx a)\<^sup>2 + (vy a)\<^sup>2) / (length_vec a)\<^sup>2"
    by (simp add: power_divide add_divide_distrib)
  also have "\<dots> = 1"
  proof -
    have nz: "(length_vec a)\<^sup>2 \<noteq> 0" using True by simp
    show ?thesis unfolding l2[symmetric] using nz by simp
  qed
  finally show ?thesis using True by (simp add: normalize_vec_def Let_def)
next
  case False
  then show ?thesis by (simp add: normalize_vec_def Let_def)
qed

lemma dot_le_one:
  assumes "(vx u)\<^sup>2 + (vy u)\<^sup>2 \<le> 1" and "(vx v)\<^sup>2 + (vy v)\<^sup>2 \<le> 1"
  shows "\<bar>dot u v\<bar> \<le> 1"
proof -
  have 1: "0 \<le> (vx u - vx v)\<^sup>2 + (vy u - vy v)\<^sup>2" by simp
  have 2: "0 \<le> (vx u + vx v)\<^sup>2 + (vy u + vy v)\<^sup>2" by simp
  have a: "2 * dot u v \<le> (vx u)\<^sup>2 + (vy u)\<^sup>2 + ((vx v)\<^sup>2 + (vy v)\<^sup>2)"
    using 1 by (simp add: dot_def power2_eq_square algebra_simps)
  have b: "- (2 * dot u v) \<le> (vx u)\<^sup>2 + (vy u)\<^sup>2 + ((vx v)\<^sup>2 + (vy v)\<^sup>2)"
    using 2 by (simp add: dot_def power2_eq_square algebra_simps)
  from a b assms show ?thesis by linarith
qed

lemma dot_normalize_bound: "\<bar>dot (normalize_vec a) (normalize_vec b)\<bar> \<le> 1"
  by (rule dot_le_one) (rule normalize_vec_sq)+

lemma dot_normalize_sign:
  assumes "dot a b \<le> 0"
  shows "dot (normalize_vec a) (normalize_vec b) \<le> 0"
proof (cases "length_vec a > 0 \<and> length_vec b > 0")
  case True
  have "dot (normalize_vec a) (normalize_vec b) = dot a b / (length_vec a * length_vec b)"
    using True by (simp add: normalize_vec_def Let_def dot_def add_divide_distrib)
  then show ?thesis
    using True assms by (simp add: divide_nonpos_pos)
next
  case False
  then show ?thesis by (auto simp: normalize_vec_def Let_def dot_def)
qed

subsection \<open>Material\<close>

text \<open>
  C7: for every base value \<open>b\<close>, \<^verbatim>\<open>set_base_ior(b)\<close> sets the six band indices to
  \<open>b\<close>, \<open>b + 0.025\<close>, \<open>b + 0.050\<close>, \<open>b + 0.075\<close>, \<open>b + 0.100\<close>, \<open>b + 0.125\<close> for red,
  orange, yellow, green, blue, violet, so that red < orange < yellow < green < blue <
  violet holds after the call.
\<close>

theorem set_base_ior_offsets:
  "ior_red (set_base_ior m b) = b
   \<and> ior_orange (set_base_ior m b) = b + 0.025
   \<and> ior_yellow (set_base_ior m b) = b + 0.050
   \<and> ior_green (set_base_ior m b) = b + 0.075
   \<and> ior_blue (set_base_ior m b) = b + 0.100
   \<and> ior_violet (set_base_ior m b) = b + 0.125
   \<and> ior_red (set_base_ior m b) < ior_orange (set_base_ior m b)
   \<and> ior_orange (set_base_ior m b) < ior_yellow (set_base_ior m b)
   \<and> ior_yellow (set_base_ior m b) < ior_green (set_base_ior m b)
   \<and> ior_green (set_base_ior m b) < ior_blue (set_base_ior m b)
   \<and> ior_blue (set_base_ior m b) < ior_violet (set_base_ior m b)"
  by (simp add: set_base_ior_def)

text \<open>
  C10: \<^verbatim>\<open>get_ior\<close> is total over wavelength strings: for a wavelength that is none of
  the six band names nor \<^verbatim>\<open>"white"\<close> it returns \<open>1.0\<close>, the index of air, and raises
  nothing.
\<close>

theorem get_ior_unknown_band:
  "w \<notin> set [''red'', ''orange'', ''yellow'', ''green'', ''blue'', ''violet'', ''white'']
   \<Longrightarrow> get_ior m w = 1.0"
  by (simp add: get_ior_def iors_def)

theorem get_ior_unknown_band_witness:
  "''infrared'' \<notin> set [''red'', ''orange'', ''yellow'', ''green'', ''blue'', ''violet'', ''white'']
   \<and> get_ior GLASS0 ''infrared'' = 1.0"
  using get_ior_unknown_band[of "''infrared''" GLASS0] by simp

subsection \<open>Refraction\<close>

text \<open>
  C5: for \<open>n1 = 1.5\<close>, \<open>n2 = 1.0\<close> and an incident direction beyond the critical angle,
  that is \<open>(n1/n2)\<^sup>2 (1 - cos\<^sup>2 \<theta>) > 1\<close> for the cosine between the unit incident
  direction and the unit normal, \<^verbatim>\<open>refract\<close> returns \<^verbatim>\<open>None\<close> and
  \<^verbatim>\<open>fresnel_reflectance\<close> returns exactly \<open>1.0\<close>.
\<close>

theorem total_internal_reflection:
  assumes "(1.5 / 1.0)\<^sup>2 * (1 - (dot (normalize_vec n) (normalize_vec inc))\<^sup>2) > (1::real)"
  shows "refract inc n 1.5 1.0 = Inr None \<and> fresnel_reflectance inc n 1.5 1.0 = Inr 1.0"
proof -
  have r: "refract inc n 1.5 1.0 = Inr None"
    using assms by (simp add: refract_def Let_def dot_neg_left)
  have f: "fresnel_reflectance inc n 1.5 1.0 = Inr 1.0"
    using assms by (simp add: fresnel_reflectance_def Let_def)
  from r f show ?thesis by simp
qed

theorem total_internal_reflection_witness:
  "(1.5 / 1.0)\<^sup>2 * (1 - (dot (normalize_vec (Vector2 0 1))
        (normalize_vec (Vector2 (4/5) (-3/5))))\<^sup>2) > (1::real)
   \<and> refract (Vector2 (4/5) (-3/5)) (Vector2 0 1) 1.5 1.0 = Inr None
   \<and> fresnel_reflectance (Vector2 (4/5) (-3/5)) (Vector2 0 1) 1.5 1.0 = Inr 1.0"
proof -
  have l1: "length_vec (Vector2 0 1) = 1"
    by (simp add: length_vec_def)
  have l2: "length_vec (Vector2 (4/5) (-3/5)) = 1"
    by (simp add: length_vec_def power2_eq_square)
  have h: "(1.5 / 1.0)\<^sup>2 * (1 - (dot (normalize_vec (Vector2 0 1))
        (normalize_vec (Vector2 (4/5) (-3/5))))\<^sup>2) > (1::real)"
    unfolding normalize_unit[OF l1] normalize_unit[OF l2]
    by (simp add: dot_def power2_eq_square)
  from h total_internal_reflection[OF h] show ?thesis by simp
qed

text \<open>
  C8: for positive indices \<open>n1\<close>, \<open>n2\<close> and a unit incident direction exactly
  anti-parallel to the surface normal, \<^verbatim>\<open>refract\<close> returns the incident direction
  unchanged.
\<close>

theorem normal_incidence:
  assumes "length_vec inc = 1" and "c > 0" and "n = mul_vec inc (- c)"
    and "n1 > 0" and "n2 > 0"
  shows "refract inc n n1 n2 = Inr (Some inc)"
proof -
  have sq: "(vx inc)\<^sup>2 + (vy inc)\<^sup>2 = 1"
    using assms(1) by (simp add: length_vec_def)
  have ni: "normalize_vec inc = inc"
    using assms(1) by (rule normalize_unit)
  have ln: "length_vec n = c"
  proof -
    have "(vx n)\<^sup>2 + (vy n)\<^sup>2 = c\<^sup>2 * ((vx inc)\<^sup>2 + (vy inc)\<^sup>2)"
      by (simp add: assms(3) mul_vec_def power2_eq_square algebra_simps)
    then show ?thesis using sq assms(2) by (simp add: length_vec_def)
  qed
  have nn: "normalize_vec n = neg_vec inc"
    using assms(2)
    by (simp add: normalize_vec_def ln Let_def) (simp add: assms(3) mul_vec_def neg_vec_def)
  have d: "dot (neg_vec inc) inc = - 1"
    using sq by (simp add: dot_def neg_vec_def power2_eq_square)
  have v: "add_vec (mul_vec inc (n1 / n2)) (mul_vec (neg_vec inc) (n1 / n2 - 1)) = inc"
    by (cases inc) (simp add: add_vec_def mul_vec_def neg_vec_def algebra_simps)
  show ?thesis
    using assms(5) by (simp add: refract_def Let_def ni nn d v)
qed

theorem normal_incidence_witness:
  "length_vec (Vector2 1 0) = 1 \<and> (2::real) > 0
   \<and> Vector2 (- 2) 0 = mul_vec (Vector2 1 0) (- 2)
   \<and> (1.5::real) > 0 \<and> (1::real) > 0
   \<and> refract (Vector2 1 0) (Vector2 (- 2) 0) 1.5 1 = Inr (Some (Vector2 1 0))"
proof -
  have a: "length_vec (Vector2 1 0) = 1"
    by (simp add: length_vec_def)
  have b: "Vector2 (- 2) 0 = mul_vec (Vector2 1 0) (- 2)"
    by (simp add: mul_vec_def)
  show ?thesis
    using a b normal_incidence[OF a _ b, of "1.5" 1] by simp
qed

subsection \<open>Sensor\<close>

lemma check_segments_cong:
  "sensor_pos s' = sensor_pos s \<Longrightarrow> sensor_radius s' = sensor_radius s
   \<Longrightarrow> check_segments s' p = check_segments s p"
  by (induction s p rule: check_segments.induct) (simp_all add: Let_def)

lemma check_hit_flags:
  "check_hit (s\<lparr>was_active := w, sensor_active := a\<rparr>) r = check_hit s r"
  by (simp add: check_hit_def
      check_segments_cong[where s = s and s' = "s\<lparr>was_active := w, sensor_active := a\<rparr>"])

lemma color_match_flags:
  "color_match (s\<lparr>was_active := w, sensor_active := a\<rparr>) r = color_match s r"
  by (simp add: color_match_def)

lemma update_fold:
  "fold (\<lambda>ray s'.
      if intensity ray \<ge> 0.2 \<and> check_hit s' ray \<and> color_match s' ray
      then s'\<lparr>sensor_active := True\<rparr> else s') rays (s\<lparr>was_active := w, sensor_active := a\<rparr>)
   = s\<lparr>was_active := w,
       sensor_active :=
         (a \<or> (\<exists>r\<in>set rays. intensity r \<ge> 0.2 \<and> check_hit s r \<and> color_match s r))\<rparr>"
proof (induction rays arbitrary: a)
  case Nil
  show ?case by simp
next
  case (Cons r rays)
  show ?case
    using Cons.IH[where a = True] Cons.IH[where a = a]
    by (auto simp: check_hit_flags color_match_flags)
qed

lemma update_active:
  "sensor_active (fst (update s rays))
   \<longleftrightarrow> (\<exists>r\<in>set rays. intensity r \<ge> 0.2 \<and> check_hit s r \<and> color_match s r)"
  using update_fold[where rays = rays and s = s and w = "sensor_active s" and a = False]
  by (simp add: update_def Let_def)

subsection \<open>Fresnel reflectance\<close>

text \<open>
  With the normal opposing the incident direction the cosine lies in \<open>[0, 1]\<close>, so the
  reflectance is never negative, whatever the indices; it is at most one when both
  indices are positive.
\<close>

lemma fresnel_nonneg:
  assumes "fresnel_reflectance inc nrm n1 n2 = Inr R" and "dot nrm inc \<le> 0"
  shows "0 \<le> R"
proof -
  define c where "c = 1 + dot (normalize_vec nrm) (normalize_vec inc)"
  have c: "0 \<le> c" "c \<le> 1"
    using dot_normalize_bound[of nrm inc] dot_normalize_sign[OF assms(2)]
    by (simp_all add: c_def)
  have c5: "0 \<le> c ^ 5" "c ^ 5 \<le> 1"
    using c by (simp_all add: power_le_one)
  define r0 where "r0 = ((n1 - n2) / (n1 + n2))\<^sup>2"
  have r0: "0 \<le> r0" by (simp add: r0_def)
  have "0 \<le> r0 * (1 - c ^ 5) + c ^ 5"
    using r0 c5 by simp
  then have g: "0 \<le> r0 + (1 - r0) * c ^ 5"
    by (simp add: algebra_simps)
  from assms(1) show ?thesis
    using g by (auto simp: fresnel_reflectance_def Let_def c_def r0_def split: if_splits)
qed

lemma fresnel_le_one:
  assumes "fresnel_reflectance inc nrm n1 n2 = Inr R" and "dot nrm inc \<le> 0"
    and "0 < n1" and "0 < n2"
  shows "R \<le> 1"
proof -
  define c where "c = 1 + dot (normalize_vec nrm) (normalize_vec inc)"
  have c: "0 \<le> c" "c \<le> 1"
    using dot_normalize_bound[of nrm inc] dot_normalize_sign[OF assms(2)]
    by (simp_all add: c_def)
  have c5: "0 \<le> c ^ 5" "c ^ 5 \<le> 1"
    using c by (simp_all add: power_le_one)
  define r0 where "r0 = ((n1 - n2) / (n1 + n2))\<^sup>2"
  have "\<bar>(n1 - n2) / (n1 + n2)\<bar> \<le> 1"
    using assms(3,4) by simp
  then have r0: "r0 \<le> 1"
    unfolding r0_def by (simp add: abs_square_le_1)
  have "0 \<le> (1 - r0) * (1 - c ^ 5)"
    using r0 c5 by simp
  then have g: "r0 + (1 - r0) * c ^ 5 \<le> 1"
    by (simp add: algebra_simps)
  from assms(1) show ?thesis
    using g by (auto simp: fresnel_reflectance_def Let_def c_def r0_def split: if_splits)
qed

subsection \<open>The nearest hit\<close>

text \<open>
  Whatever the search returns was found on a segment of an item of the scene, lies
  farther than the guard, and has its normal turned against the ray.
\<close>

lemma intersect_dist_nonneg: "intersect p1 p2 p3 p4 = Some (pt, d) \<Longrightarrow> 0 \<le> d"
  by (auto simp: intersect_def Let_def length_vec_def split: if_splits)

lemma scan_segment_inv:
  assumes "scan_segment g ray item s best = Some h"
    and "best = Some h \<Longrightarrow> Q h"
    and "\<And>d pt n. 0 \<le> d \<Longrightarrow> g < d \<Longrightarrow> dot n (direction ray) \<le> 0 \<Longrightarrow> Q (d, pt, n, item)"
  shows "Q h"
  using assms
  by (auto simp: scan_segment_def Let_def dot_neg_left
      split: option.splits if_splits prod.splits dest: intersect_dist_nonneg)

lemma fold_scan_inv:
  assumes "fold (scan_segment g ray item) segs best = Some h"
    and "\<And>h'. best = Some h' \<Longrightarrow> Q h'"
    and "\<And>d pt n. 0 \<le> d \<Longrightarrow> g < d \<Longrightarrow> dot n (direction ray) \<le> 0 \<Longrightarrow> Q (d, pt, n, item)"
  shows "Q h"
  using assms
proof (induction segs arbitrary: best)
  case Nil
  then show ?case by simp
next
  case (Cons s segs)
  show ?case
  proof (rule Cons.IH[of "scan_segment g ray item s best"])
    show "fold (scan_segment g ray item) segs (scan_segment g ray item s best) = Some h"
      using Cons.prems(1) by simp
  next
    fix h' assume "scan_segment g ray item s best = Some h'"
    then show "Q h'"
      using Cons.prems(2,3) by (rule scan_segment_inv) auto
  next
    fix d pt n assume "0 \<le> d" "g < d" "dot n (direction ray) \<le> 0"
    then show "Q (d, pt, n, item)" by (rule Cons.prems(3))
  qed
qed

lemma fold_items_inv:
  assumes "fold (\<lambda>item best. fold (scan_segment g ray item) (get_segments item) best) its best
            = Some h"
    and "\<And>h'. best = Some h' \<Longrightarrow> Q h'"
    and "\<And>d pt n item. item \<in> set its \<Longrightarrow> 0 \<le> d \<Longrightarrow> g < d \<Longrightarrow> dot n (direction ray) \<le> 0
          \<Longrightarrow> Q (d, pt, n, item)"
  shows "Q h"
  using assms
proof (induction its arbitrary: best)
  case Nil
  then show ?case by simp
next
  case (Cons it its)
  show ?case
  proof (rule Cons.IH[of "fold (scan_segment g ray it) (get_segments it) best"])
    show "fold (\<lambda>item best. fold (scan_segment g ray item) (get_segments item) best) its
            (fold (scan_segment g ray it) (get_segments it) best) = Some h"
      using Cons.prems(1) by simp
  next
    fix h' assume "fold (scan_segment g ray it) (get_segments it) best = Some h'"
    then show "Q h'"
      using Cons.prems(2) by (rule fold_scan_inv) (auto intro: Cons.prems(3))
  next
    fix d pt n item
    assume "item \<in> set its" "0 \<le> d" "g < d" "dot n (direction ray) \<le> 0"
    then show "Q (d, pt, n, item)" by (auto intro: Cons.prems(3))
  qed
qed

lemma nearest_hit_props:
  assumes "nearest_hit g items ray = Some (d, pt, n, it)"
  shows "0 \<le> d \<and> g < d \<and> dot n (direction ray) \<le> 0 \<and> it \<in> set items"
proof -
  have "(\<lambda>(d, pt, n, it). 0 \<le> d \<and> g < d \<and> dot n (direction ray) \<le> 0 \<and> it \<in> set items)
          (d, pt, n, it)"
    using assms unfolding nearest_hit_def
    by (rule fold_items_inv) auto
  then show ?thesis by simp
qed

subsection \<open>The bounce cap\<close>

lemma trace_step_capped:
  "bounces ray \<ge> 10 \<Longrightarrow> trace_step g G items ray = Inr (None, [], ray, False)"
  by (simp add: trace_step_def)

lemma trace_color_step_capped:
  "bounces ray \<ge> 10 \<Longrightarrow> trace_color_step g G items ray = Inr (None, ray, False)"
  by (simp add: trace_color_step_def)

lemma trace_step_spent:
  "active ray \<Longrightarrow> bounces ray < 10 \<Longrightarrow> distance_traveled ray \<ge> MAX_RAY_DISTANCE
   \<Longrightarrow> trace_step g G items ray = Inr (None, [], ray\<lparr>active := False\<rparr>, False)"
  by (simp add: trace_step_def)

lemma trace_color_step_spent:
  "active ray \<Longrightarrow> bounces ray < 10 \<Longrightarrow> distance_traveled ray \<ge> MAX_RAY_DISTANCE
   \<Longrightarrow> trace_color_step g G items ray = Inr (None, ray\<lparr>active := False\<rparr>, False)"
  by (simp add: trace_color_step_def)

text \<open>
  A corridor of two plane mirrors facing each other, at \<open>x = -10\<close> and \<open>x = 10\<close>, and
  a white ray emitted between them, straight at the right one.
\<close>

definition mirror_at :: "real \<Rightarrow> Item" where
  "mirror_at a =
     \<lparr>item_type = PLANE_MIRROR, item_pos = Vector2 a 0, shape = [Vector2 a (-5), Vector2 a 5]\<rparr>"

definition corridor :: "Item list" where
  "corridor = [mirror_at (-10), mirror_at 10]"

definition emitted_ray :: Ray where
  "emitted_ray = Ray_init (Vector2 0 0) (Vector2 1 0) WHITE ''white'' True 1.0"

lemma mirror_segments:
  "get_segments (mirror_at a) = [(Vector2 a (-5), Vector2 a 5), (Vector2 a 5, Vector2 a (-5))]"
  by (simp add: get_segments_def mirror_at_def upt_rec)

lemma endpoint_far:
  "distance_traveled r \<le> 4000
   \<Longrightarrow> get_endpoint r = add_vec (origin r) (mul_vec (direction r) 2000)"
  by (simp add: get_endpoint_def MAX_RAY_DISTANCE_def Let_def min_def max_def)

lemma hit_from_centre:
  assumes "distance_traveled r \<le> 4000" "origin r = Vector2 0 0" "direction r = Vector2 1 0"
  shows "nearest_hit (1/10) corridor r = Some (10, Vector2 10 0, Vector2 (-1) 0, mirror_at 10)"
  by (simp add: nearest_hit_def corridor_def mirror_segments scan_segment_def
      endpoint_far[OF assms(1)] assms(2,3) intersect_def Let_def vec_simps normal_vertical
      length_vec_axis)

lemma hit_from_left:
  assumes "distance_traveled r \<le> 4000" "origin r = Vector2 (-10) 0" "direction r = Vector2 1 0"
  shows "nearest_hit (1/10) corridor r = Some (20, Vector2 10 0, Vector2 (-1) 0, mirror_at 10)"
  by (simp add: nearest_hit_def corridor_def mirror_segments scan_segment_def
      endpoint_far[OF assms(1)] assms(2,3) intersect_def Let_def vec_simps normal_vertical
      length_vec_axis)

lemma hit_from_right:
  assumes "distance_traveled r \<le> 4000" "origin r = Vector2 10 0" "direction r = Vector2 (-1) 0"
  shows "nearest_hit (1/10) corridor r = Some (20, Vector2 (-10) 0, Vector2 1 0, mirror_at (-10))"
  by (simp add: nearest_hit_def corridor_def mirror_segments scan_segment_def
      endpoint_far[OF assms(1)] assms(2,3) intersect_def Let_def vec_simps normal_vertical
      length_vec_axis)

lemma trace_step_mirror:
  assumes "active r" "bounces r < 10" "distance_traveled r \<le> 4000"
    and "nearest_hit g items r = Some (d, pt, n, it)"
    and "item_type it = PLANE_MIRROR" and "d \<le> 100"
  shows "trace_step g G items r =
     Inr (None, [],
          r\<lparr>path := path r @ [(vx pt, vy pt)], distance_traveled := distance_traveled r + d,
            origin := pt, direction := reflect (direction r) n, bounces := bounces r + 1\<rparr>, True)"
  using assms
  by (simp add: trace_step_def Let_def get_intensity_at_distance_def MAX_RAY_DISTANCE_def)

text \<open>From either mirror the ray bounces to and fro until its bounce count is ten.\<close>

lemma corridor_bounces:
  assumes "active r" and "bounces r \<le> 10"
    and "distance_traveled r + 20 * real_of_int (10 - bounces r) \<le> 4000"
    and "(origin r = Vector2 (-10) 0 \<and> direction r = Vector2 1 0)
         \<or> (origin r = Vector2 10 0 \<and> direction r = Vector2 (-1) 0)"
    and "n = nat (10 - bounces r)" and "n < k"
  shows "\<exists>r'. trace_loop (1/10) G corridor k r = Inr (r', []) \<and> active r' \<and> bounces r' = 10
           \<and> distance_traveled r' = distance_traveled r + 20 * real_of_int (10 - bounces r)"
  using assms
proof (induction n arbitrary: r k)
  case 0
  then have b: "bounces r = 10" by simp
  from 0 obtain k' where k: "k = Suc k'" by (cases k) auto
  have "trace_step (1/10) G corridor r = Inr (None, [], r, False)"
    by (simp add: trace_step_capped b)
  then show ?case
    using 0 b by (simp add: k then_rest_def)
next
  case (Suc n)
  then have b: "bounces r < 10" by simp
  from Suc obtain k' where k: "k = Suc k'" and k': "n < k'" by (cases k) auto
  have d: "distance_traveled r \<le> 4000" using Suc.prems(3) b by simp
  let ?go = "\<lambda>pt dr. r\<lparr>path := path r @ [(vx pt, vy pt)],
            distance_traveled := distance_traveled r + 20,
            origin := pt, direction := dr, bounces := bounces r + 1\<rparr>"
  from Suc.prems(4) show ?case
  proof
    assume s: "origin r = Vector2 (-10) 0 \<and> direction r = Vector2 1 0"
    have st: "trace_step (1/10) G corridor r
              = Inr (None, [], ?go (Vector2 10 0) (Vector2 (-1) 0), True)"
      using trace_step_mirror[OF Suc.prems(1) b d hit_from_left[OF d], of G] s
      by (simp add: mirror_at_def reflect_head_on)
    have "\<exists>r'. trace_loop (1/10) G corridor k' (?go (Vector2 10 0) (Vector2 (-1) 0)) = Inr (r', [])
        \<and> active r' \<and> bounces r' = 10
        \<and> distance_traveled r' = distance_traveled (?go (Vector2 10 0) (Vector2 (-1) 0))
            + 20 * real_of_int (10 - bounces (?go (Vector2 10 0) (Vector2 (-1) 0)))"
      using Suc.prems b k' by (intro Suc.IH) auto
    then show ?thesis
      by (auto simp: k st then_rest_def)
  next
    assume s: "origin r = Vector2 10 0 \<and> direction r = Vector2 (-1) 0"
    have st: "trace_step (1/10) G corridor r
              = Inr (None, [], ?go (Vector2 (-10) 0) (Vector2 1 0), True)"
      using trace_step_mirror[OF Suc.prems(1) b d hit_from_right[OF d], of G] s
      by (simp add: mirror_at_def reflect_head_on)
    have "\<exists>r'. trace_loop (1/10) G corridor k' (?go (Vector2 (-10) 0) (Vector2 1 0)) = Inr (r', [])
        \<and> active r' \<and> bounces r' = 10
        \<and> distance_traveled r' = distance_traveled (?go (Vector2 (-10) 0) (Vector2 1 0))
            + 20 * real_of_int (10 - bounces (?go (Vector2 (-10) 0) (Vector2 1 0)))"
      using Suc.prems b k' by (intro Suc.IH) auto
    then show ?thesis
      by (auto simp: k st then_rest_def)
  qed
qed

lemma corridor_trace:
  "\<exists>r'. trace G corridor emitted_ray = Inr (r', []) \<and> active r' \<and> bounces r' = 10
        \<and> distance_traveled r' = 190"
proof -
  let ?r1 = "emitted_ray\<lparr>path := path emitted_ray @ [(10, 0)], distance_traveled := 10,
            origin := Vector2 10 0, direction := Vector2 (-1) 0, bounces := 1\<rparr>"
  have e: "active emitted_ray" "bounces emitted_ray = 0" "distance_traveled emitted_ray = 0"
    "origin emitted_ray = Vector2 0 0" "direction emitted_ray = Vector2 1 0"
    by (simp_all add: emitted_ray_def Ray_init_def vec_simps length_vec_axis)
  have d: "distance_traveled emitted_ray \<le> 4000" by (simp add: e)
  have st: "trace_step (1/10) G corridor emitted_ray = Inr (None, [], ?r1, True)"
    using trace_step_mirror[OF e(1) _ d hit_from_centre[OF d e(4) e(5)], of G]
    by (simp add: e mirror_at_def reflect_head_on)
  have "\<exists>r'. trace_loop (1/10) G corridor 19 ?r1 = Inr (r', []) \<and> active r' \<and> bounces r' = 10
           \<and> distance_traveled r' = distance_traveled ?r1 + 20 * real_of_int (10 - bounces ?r1)"
    by (rule corridor_bounces[where n = 9]) (simp_all add: e)
  then show ?thesis
    using trace_loop.simps(2)[of "1/10" G corridor 19 emitted_ray]
    by (auto simp: trace_def st then_rest_def)
qed

text \<open>
  C2 as stated fails: at the bounce cap the loop of \<^verbatim>\<open>trace\<close> only breaks. The white ray
  emitted in the corridor is reflected ten times (it has then travelled 190 units, far
  from the budget), its bounce count is 10, the routine returns, and the ray is still
  flagged active. Likewise \<^verbatim>\<open>trace_color\<close> returns a ray handed over at the cap as it is.
\<close>

theorem bounce_cap_keeps_active_counterexample:
  "(case trace GLASS0 corridor emitted_ray of
      Inl e \<Rightarrow> False
    | Inr (r, out) \<Rightarrow> active r \<and> bounces r = 10 \<and> distance_traveled r = 190 \<and> out = [])
   \<and> trace_color GLASS0 corridor (emitted_ray\<lparr>bounces := 10\<rparr>)
       = Inr (emitted_ray\<lparr>bounces := 10\<rparr>, [])
   \<and> active (emitted_ray\<lparr>bounces := 10\<rparr>)"
proof -
  have a: "case trace GLASS0 corridor emitted_ray of
      Inl e \<Rightarrow> False
    | Inr (r, out) \<Rightarrow> active r \<and> bounces r = 10 \<and> distance_traveled r = 190 \<and> out = []"
    using corridor_trace[of GLASS0] by auto
  have b: "trace_color GLASS0 corridor (emitted_ray\<lparr>bounces := 10\<rparr>)
       = Inr (emitted_ray\<lparr>bounces := 10\<rparr>, [])"
    using trace_color_loop.simps(2)[of 1 GLASS0 corridor 9 "emitted_ray\<lparr>bounces := 10\<rparr>"]
    by (simp add: trace_color_def trace_color_step_capped then_rest_def)
  have c: "active (emitted_ray\<lparr>bounces := 10\<rparr>)"
    by (simp add: emitted_ray_def Ray_init_def)
  from a b c show ?thesis by simp
qed

text \<open>
  C2 as amended: when the bounce count of the ray handed to \<^verbatim>\<open>trace\<close> or \<^verbatim>\<open>trace_color\<close>
  has reached the cap (10), the routine stops at once and returns the ray unchanged, its
  active flag included, and spawns nothing; when an active ray below the cap has used up
  its travel budget, the routine marks it inactive and returns.
\<close>

theorem bounce_cap_stops_unchanged:
  "(bounces ray \<ge> 10 \<longrightarrow>
      trace G items ray = Inr (ray, []) \<and> trace_color G items ray = Inr (ray, []))
   \<and> (active ray \<and> bounces ray < 10 \<and> distance_traveled ray \<ge> MAX_RAY_DISTANCE \<longrightarrow>
      trace G items ray = Inr (ray\<lparr>active := False\<rparr>, [])
      \<and> trace_color G items ray = Inr (ray\<lparr>active := False\<rparr>, []))"
  using trace_loop.simps(2)[of "1/10" G items 19 ray]
    trace_color_loop.simps(2)[of 1 G items 9 ray]
  by (simp add: trace_def trace_color_def trace_step_capped trace_color_step_capped
      trace_step_spent trace_color_step_spent then_rest_def)

theorem bounce_cap_stops_unchanged_witness:
  "bounces (emitted_ray\<lparr>bounces := 10\<rparr>) \<ge> 10
   \<and> trace GLASS0 corridor (emitted_ray\<lparr>bounces := 10\<rparr>) = Inr (emitted_ray\<lparr>bounces := 10\<rparr>, [])
   \<and> active (emitted_ray\<lparr>distance_traveled := 6000\<rparr>)
   \<and> bounces (emitted_ray\<lparr>distance_traveled := 6000\<rparr>) < 10
   \<and> distance_traveled (emitted_ray\<lparr>distance_traveled := 6000\<rparr>) \<ge> MAX_RAY_DISTANCE
   \<and> trace GLASS0 corridor (emitted_ray\<lparr>distance_traveled := 6000\<rparr>)
       = Inr (emitted_ray\<lparr>distance_traveled := 6000, active := False\<rparr>, [])"
  using bounce_cap_stops_unchanged[of "emitted_ray\<lparr>bounces := 10\<rparr>" GLASS0 corridor]
    bounce_cap_stops_unchanged[of "emitted_ray\<lparr>distance_traveled := 6000\<rparr>" GLASS0 corridor]
  by (simp add: emitted_ray_def Ray_init_def MAX_RAY_DISTANCE_def)

subsection \<open>A faint ray at a glass block\<close>

text \<open>
  A rectangular block of glass with its left face at \<open>x = 5\<close>, and a red ray of
  intensity \<open>0.05\<close> that meets this face head-on. The Fresnel reflectance there is
  \<open>((1 - 1.5) / (1 + 1.5))\<^sup>2 = 0.04\<close>.
\<close>

definition glass_block :: Item where
  "glass_block = \<lparr>item_type = RECTANGLE, item_pos = Vector2 10 0,
      shape = [Vector2 5 (-5), Vector2 15 (-5), Vector2 15 5, Vector2 5 5]\<rparr>"

definition faint_red_ray :: Ray where
  "faint_red_ray = Ray_init (Vector2 0 0) (Vector2 1 0) RED ''red'' False 0.05"

definition refracted_ray :: Ray where
  "refracted_ray =
     faint_red_ray\<lparr>path := [(0, 0), (5, 0)], distance_traveled := 5, origin := Vector2 5 0,
       intensity := 0.048, material := GLASS0, bounces := 1\<rparr>"

definition reflected_ray :: Ray where
  "reflected_ray =
     (Ray_init (Vector2 5 0) (Vector2 (-1) 0) RED ''red'' False 0.002)
       \<lparr>distance_traveled := 5, bounces := 1\<rparr>"

lemma faint_red_ray_eq:
  "faint_red_ray = \<lparr>origin = Vector2 0 0, direction = Vector2 1 0, color = RED,
      wavelength = ''red'', is_white = False, path = [(0, 0)], active = True,
      bounces = 0, material = AIR, intensity = 1 / 20, distance_traveled = 0\<rparr>"
  by (simp add: faint_red_ray_def Ray_init_def vec_simps length_vec_axis)

lemma reflected_ray_eq:
  "reflected_ray = \<lparr>origin = Vector2 5 0, direction = Vector2 (- 1) 0, color = RED,
      wavelength = ''red'', is_white = False, path = [(5, 0)], active = True,
      bounces = 1, material = AIR, intensity = 1 / 500, distance_traveled = 5\<rparr>"
  by (simp add: reflected_ray_def Ray_init_def vec_simps length_vec_axis)

lemma block_segments:
  "get_segments glass_block =
     [(Vector2 5 (-5), Vector2 15 (-5)), (Vector2 15 (-5), Vector2 15 5),
      (Vector2 15 5, Vector2 5 5), (Vector2 5 5, Vector2 5 (-5))]"
  by (simp add: get_segments_def glass_block_def upt_rec)

lemma block_hit:
  "0 \<le> g \<Longrightarrow> g < 5
   \<Longrightarrow> nearest_hit g [glass_block] faint_red_ray
       = Some (5, Vector2 5 0, Vector2 (-1) 0, glass_block)"
  by (simp add: nearest_hit_def block_segments scan_segment_def faint_red_ray_eq get_endpoint_def
      MAX_RAY_DISTANCE_def intersect_def Let_def vec_simps normal_vertical length_vec_axis)

lemma block_miss:
  "0 \<le> g \<Longrightarrow> nearest_hit g [glass_block] reflected_ray = None"
  by (simp add: nearest_hit_def block_segments scan_segment_def reflected_ray_eq get_endpoint_def
      MAX_RAY_DISTANCE_def intersect_def Let_def vec_simps normal_vertical length_vec_axis)

lemma fresnel_head_on:
  "fresnel_reflectance (Vector2 1 0) (Vector2 (- 1) 0) 1 (3 / 2) = Inr (1 / 25)"
  by (simp add: fresnel_reflectance_def Let_def vec_simps length_vec_axis power2_eq_square)

lemma refract_head_on:
  "refract (Vector2 1 0) (Vector2 (- 1) 0) 1 (3 / 2) = Inr (Some (Vector2 1 0))"
  by (simp add: refract_def Let_def vec_simps length_vec_axis)

lemma iors_red: "get_ior AIR ''red'' = 1" "get_ior GLASS0 ''red'' = 3 / 2"
  by (simp_all add: get_ior_def iors_def AIR_def GLASS0_def)

lemma GLASS0_not_AIR: "GLASS0 \<noteq> AIR"
  by (simp add: GLASS0_def AIR_def)

lemma trace_color_step_block:
  "trace_color_step 1 GLASS0 [glass_block] faint_red_ray
   = Inr (Some reflected_ray, refracted_ray, True)"
  using block_hit[of 1]
  by (simp add: trace_color_step_def Let_def)
     (simp add: faint_red_ray_eq reflected_ray_eq refracted_ray_def glass_block_def
        trace_color_dielectric_def MAX_RAY_DISTANCE_def iors_red fresnel_head_on refract_head_on
        reflect_head_on sibling_def Ray_init_def vec_simps length_vec_axis Let_def
        GLASS0_not_AIR GLASS0_not_AIR[symmetric])

lemma trace_step_block:
  "trace_step 1 GLASS0 [glass_block] faint_red_ray = Inr (None, [], refracted_ray, True)"
  using block_hit[of 1]
  by (simp add: trace_step_def Let_def)
     (simp add: faint_red_ray_eq refracted_ray_def glass_block_def get_intensity_at_distance_def
        trace_polygon_def MAX_RAY_DISTANCE_def iors_red fresnel_head_on refract_head_on
        reflect_head_on sibling_def Ray_init_def vec_simps length_vec_axis Let_def
        GLASS0_not_AIR GLASS0_not_AIR[symmetric])

lemma reflected_ray_leaves:
  "trace_color_loop 1 GLASS0 [glass_block] 10 reflected_ray
   = Inr (reflected_ray\<lparr>path := [(5, 0), (- 1995, 0)], distance_traveled := 2005,
            active := False\<rparr>, [])"
  using trace_color_loop.simps(2)[of 1 GLASS0 "[glass_block]" 9 reflected_ray] block_miss[of 1]
  by (simp add: trace_color_step_def then_rest_def)
     (simp add: reflected_ray_eq no_hit_def MAX_RAY_DISTANCE_def vec_simps Let_def)

lemma trace_color_one_pass:
  "trace_color_loop 1 GLASS0 [glass_block] 1 faint_red_ray
   = Inr (refracted_ray,
          [reflected_ray\<lparr>path := [(5, 0), (- 1995, 0)], distance_traveled := 2005,
             active := False\<rparr>])"
  using trace_color_loop.simps(2)[of 1 GLASS0 "[glass_block]" 0 faint_red_ray]
  by (simp add: trace_color_step_block reflected_ray_leaves then_rest_def traced_def)

lemma trace_one_pass:
  "trace_loop 1 GLASS0 [glass_block] 1 faint_red_ray = Inr (refracted_ray, [])"
  using trace_loop.simps(2)[of 1 GLASS0 "[glass_block]" 0 faint_red_ray]
  by (simp add: trace_step_block then_rest_def)

text \<open>
  C4 says that a reflected sibling is spawned at a dielectric boundary if and only if
  \<open>intensity \<cdot> R\<close> exceeds \<open>0.01\<close>. The polygon branch of \<^verbatim>\<open>trace\<close> tests
  \<^verbatim>\<open>R > 0.01 and ray.intensity * R > 0.01\<close>; \<^verbatim>\<open>trace_color\<close> (and the lens branch of
  \<^verbatim>\<open>trace\<close>) tests \<^verbatim>\<open>R > 0.01\<close> alone. At the block, a pass of \<^verbatim>\<open>trace_color\<close> on the
  faint ray spawns a sibling of intensity \<open>0.05 \<cdot> 0.04 = 0.002\<close>, below the floor,
  where a pass of \<^verbatim>\<open>trace\<close> on the same ray, with the same guard, spawns none. The
  sibling is as the claim describes it: the reflected direction, the band of the parent,
  the hit point as origin, the bounce count of the parent plus one and its travelled
  distance.
\<close>

theorem trace_color_spawns_below_floor:
  "trace_color_step 1 GLASS0 [glass_block] faint_red_ray
     = Inr (Some reflected_ray, refracted_ray, True)
   \<and> trace_step 1 GLASS0 [glass_block] faint_red_ray = Inr (None, [], refracted_ray, True)
   \<and> fresnel_reflectance (Vector2 1 0) (Vector2 (- 1) 0)
        (get_ior AIR ''red'') (get_ior GLASS0 ''red'') = Inr 0.04
   \<and> intensity faint_red_ray * 0.04 = 0.002
   \<and> intensity reflected_ray = 0.002
   \<and> bounces reflected_ray = bounces faint_red_ray + 1"
proof -
  have a: "fresnel_reflectance (Vector2 1 0) (Vector2 (- 1) 0)
        (get_ior AIR ''red'') (get_ior GLASS0 ''red'') = Inr 0.04"
    by (simp add: iors_red fresnel_head_on)
  have b: "intensity faint_red_ray * 0.04 = 0.002" "intensity reflected_ray = 0.002"
    "bounces reflected_ray = bounces faint_red_ray + 1"
    by (simp_all add: faint_red_ray_eq reflected_ray_eq)
  from trace_color_step_block trace_step_block a b show ?thesis
    by blast
qed

theorem trace_color_spawns_below_floor_witness:
  "(case trace_color_step 1 GLASS0 [glass_block] faint_red_ray of
      Inr (Some r, _) \<Rightarrow> intensity r = 0.002 \<and> \<not> intensity faint_red_ray * 0.04 > 0.01
    | _ \<Rightarrow> False)
   \<and> (case trace_step 1 GLASS0 [glass_block] faint_red_ray of
      Inr (None, _) \<Rightarrow> True
    | _ \<Rightarrow> False)"
  using trace_color_spawns_below_floor by simp

subsection \<open>Intensity along a trace\<close>

lemma scale_by_transmission:
  fixes i R :: real
  assumes "0 \<le> i" "0 \<le> R" "1 - R > 0.01"
  shows "0 \<le> i * (1 - R) \<and> i * (1 - R) \<le> i"
proof -
  have "0 \<le> 1 - R" using assms(3) by simp
  moreover have "1 - R \<le> 1" using assms(2) by simp
  ultimately show ?thesis using assms(1) by (simp add: mult_left_le)
qed

lemma trace_color_dielectric_intensity:
  assumes "trace_color_dielectric G ray bp bn e n1 n2 = Inr (sp, ray', cont)"
    and "0 \<le> intensity ray" and "dot bn (direction ray) \<le> 0"
  shows "0 \<le> intensity ray' \<and> intensity ray' \<le> intensity ray"
proof (cases "fresnel_reflectance (direction ray) bn n1 n2")
  case (Inl e)
  with assms(1) show ?thesis by (simp add: trace_color_dielectric_def)
next
  case (Inr R)
  have R: "0 \<le> R" using Inr assms(3) by (rule fresnel_nonneg)
  show ?thesis
    using assms(1,2) scale_by_transmission[OF assms(2) R]
    by (auto simp: trace_color_dielectric_def Inr Let_def split: if_splits sum.splits option.splits)
qed

lemma no_hit_intensity: "intensity (no_hit ray) = intensity ray"
  by (simp add: no_hit_def Let_def)

lemma trace_color_step_intensity:
  assumes "trace_color_step g G items ray = Inr (sp, ray', cont)" and "0 \<le> intensity ray"
  shows "0 \<le> intensity ray' \<and> intensity ray' \<le> intensity ray"
proof (cases "nearest_hit g items ray")
  case None
  with assms show ?thesis
    by (auto simp: trace_color_step_def no_hit_intensity split: if_splits)
next
  case (Some h)
  obtain d pt n it where h: "h = (d, pt, n, it)" by (cases h) auto
  have n: "dot n (direction ray) \<le> 0"
    using nearest_hit_props[of g items ray d pt n it] Some h by simp
  show ?thesis
    using assms n
    by (auto simp: trace_color_step_def Some h Let_def split: if_splits
        dest!: trace_color_dielectric_intensity)
qed

lemma trace_color_loop_intensity:
  "trace_color_loop g G items k ray = Inr (r', out) \<Longrightarrow> 0 \<le> intensity ray
   \<Longrightarrow> intensity r' \<le> intensity ray"
proof (induction g G items k ray arbitrary: r' out rule: trace_color_loop.induct)
  case (1 g G items ray)
  then show ?case by simp
next
  case (2 g G items k ray)
  from "2.prems"(1) obtain sp ray1 cont where
    st: "trace_color_step g G items ray = Inr (sp, ray1, cont)"
    by (auto split: sum.splits)
  have i1: "0 \<le> intensity ray1" "intensity ray1 \<le> intensity ray"
    using trace_color_step_intensity[OF st "2.prems"(2)] by simp_all
  show ?case
  proof (cases cont)
    case True
    from "2.prems"(1) obtain out2 where
      "trace_color_loop g G items k ray1 = Inr (r', out2)"
      by (auto simp: st True then_rest_def split: sum.splits)
    then have "intensity r' \<le> intensity ray1"
      using "2.IH"(2)[OF st refl refl True] i1(1) by simp
    then show ?thesis using i1(2) by simp
  next
    case False
    from "2.prems"(1) have "r' = ray1"
      by (auto simp: st False then_rest_def split: sum.splits)
    then show ?thesis using i1(2) by simp
  qed
qed

lemma trace_polygon_intensity:
  assumes "trace_polygon G ray bp bn it = Inr (sp, news, ray', cont)"
    and "0 \<le> intensity ray" and "dot bn (direction ray) \<le> 0"
  shows "0 \<le> intensity ray' \<and> intensity ray' \<le> intensity ray"
proof -
  define n1 where "n1 = (if is_white ray then get_ior (material ray) ''white''
                else get_ior (material ray) (wavelength ray))"
  define n2 where "n2 = (if is_white ray then get_ior G ''white''
                else if dot bn (sub_vec (item_pos it) bp) < 0 then get_ior G (wavelength ray)
                else get_ior AIR (wavelength ray))"
  show ?thesis
  proof (cases "fresnel_reflectance (direction ray) bn n1 n2")
    case (Inl e)
    with assms(1) show ?thesis
      by (simp add: trace_polygon_def Let_def n1_def n2_def)
  next
    case (Inr R)
    have R: "0 \<le> R" using Inr assms(3) by (rule fresnel_nonneg)
    show ?thesis
      using assms(1,2) scale_by_transmission[OF assms(2) R] Inr
      unfolding trace_polygon_def Let_def n1_def n2_def
      by (auto split: if_splits sum.splits option.splits)
  qed
qed

lemma trace_lens_intensity:
  assumes "trace_lens G ray bp bn it = Inr (sp, news, ray', cont)"
    and "0 \<le> intensity ray" and "dot bn (direction ray) \<le> 0"
  shows "0 \<le> intensity ray' \<and> intensity ray' \<le> intensity ray"
proof -
  have R: "\<And>n1 n2 R. fresnel_reflectance (direction ray) bn n1 n2 = Inr R \<Longrightarrow> 0 \<le> R"
    by (rule fresnel_nonneg[OF _ assms(3)])
  have sc: "\<And>n1 n2 R. fresnel_reflectance (direction ray) bn n1 n2 = Inr R \<Longrightarrow> 1 - R > 0.01
       \<Longrightarrow> 0 \<le> intensity ray * (1 - R) \<and> intensity ray * (1 - R) \<le> intensity ray"
    using scale_by_transmission[OF assms(2)] R by blast
  show ?thesis
    using assms(1,2)
    unfolding trace_lens_def Let_def
    by (auto split: if_splits sum.splits option.splits dest!: sc)
qed

lemma trace_step_intensity:
  assumes "trace_step g G items ray = Inr (sp, news, ray', cont)" and "0 \<le> intensity ray"
  shows "0 \<le> intensity ray' \<and> intensity ray' \<le> intensity ray"
proof (cases "nearest_hit g items ray")
  case None
  with assms show ?thesis
    by (auto simp: trace_step_def no_hit_intensity split: if_splits)
next
  case (Some h)
  obtain d pt n it where h: "h = (d, pt, n, it)" by (cases h) auto
  have n: "dot n (direction ray) \<le> 0"
    using nearest_hit_props[of g items ray d pt n it] Some h by simp
  show ?thesis
    using assms n
    by (auto simp: trace_step_def Some h Let_def split: if_splits
        dest!: trace_polygon_intensity trace_lens_intensity)
qed

lemma trace_loop_intensity:
  "trace_loop g G items k ray = Inr (r', out) \<Longrightarrow> 0 \<le> intensity ray
   \<Longrightarrow> intensity r' \<le> intensity ray"
proof (induction g G items k ray arbitrary: r' out rule: trace_loop.induct)
  case (1 g G items ray)
  then show ?case by simp
next
  case (2 g G items k ray)
  from "2.prems"(1) obtain sp news ray1 cont where
    st: "trace_step g G items ray = Inr (sp, news, ray1, cont)"
    by (auto split: sum.splits)
  have i1: "0 \<le> intensity ray1" "intensity ray1 \<le> intensity ray"
    using trace_step_intensity[OF st "2.prems"(2)] by simp_all
  show ?case
  proof (cases cont)
    case True
    from "2.prems"(1) obtain out2 where
      "trace_loop g G items k ray1 = Inr (r', out2)"
      by (auto simp: st True then_rest_def split: sum.splits)
    then have "intensity r' \<le> intensity ray1"
      using "2.IH"(2)[OF st refl refl refl True] i1(1) by simp
    then show ?thesis using i1(2) by simp
  next
    case False
    from "2.prems"(1) have "r' = ray1"
      by (auto simp: st False then_rest_def split: sum.splits)
    then show ?thesis using i1(2) by simp
  qed
qed

text \<open>
  C6: across the passes of its own trace (the siblings it spawns apart) the intensity
  of a ray never increases, in \<^verbatim>\<open>trace\<close> and in \<^verbatim>\<open>trace_color\<close>, after any number of
  passes \<open>k\<close> and with any guard (\<^verbatim>\<open>trace\<close> is \<open>trace_loop\<close> with guard \<open>0.1\<close> and
  twenty passes, \<^verbatim>\<open>trace_color\<close> is \<open>trace_color_loop\<close> with guard \<open>1.0\<close> and ten): the
  only update is \<^verbatim>\<open>ray.intensity *= T\<close> with
  \<open>T = 1 - R\<close>, taken when \<open>T > 0.01\<close>, and the Fresnel reflectance \<open>R\<close> lies in
  \<open>[0, 1]\<close> for positive indices and a normal opposing the incident direction (as
  the hit search makes it). The ray's intensity is taken non-negative, as every ray
  the program builds has it (\<open>1.0\<close> at emission, then products with \<open>R\<close> and \<open>T\<close>).
\<close>

theorem intensity_never_increases:
  assumes "0 \<le> intensity ray"
  shows "(trace_loop g G items k ray = Inr (r', out) \<longrightarrow> intensity r' \<le> intensity ray)
    \<and> (trace_color_loop g G items k ray = Inr (r'', out') \<longrightarrow> intensity r'' \<le> intensity ray)
    \<and> (0 < n1 \<and> 0 < n2 \<and> dot nrm inc \<le> 0 \<and> fresnel_reflectance inc nrm n1 n2 = Inr R
         \<longrightarrow> 0 \<le> R \<and> R \<le> 1)"
  using assms trace_loop_intensity[of g G items k ray r' out]
    trace_color_loop_intensity[of g G items k ray r'' out']
    fresnel_nonneg[of inc nrm n1 n2 R] fresnel_le_one[of inc nrm n1 n2 R]
  by simp

theorem intensity_never_increases_witness:
  "0 \<le> intensity faint_red_ray
   \<and> trace_loop 1 GLASS0 [glass_block] 1 faint_red_ray = Inr (refracted_ray, [])
   \<and> trace_color_loop 1 GLASS0 [glass_block] 1 faint_red_ray
       = Inr (refracted_ray,
          [reflected_ray\<lparr>path := [(5, 0), (- 1995, 0)], distance_traveled := 2005,
             active := False\<rparr>])
   \<and> intensity refracted_ray \<le> intensity faint_red_ray
   \<and> intensity refracted_ray = 0.048 \<and> intensity faint_red_ray = 0.05
   \<and> (0::real) < 1 \<and> (0::real) < 3 / 2 \<and> dot (Vector2 (- 1) 0) (Vector2 1 0) \<le> 0
   \<and> fresnel_reflectance (Vector2 1 0) (Vector2 (- 1) 0) 1 (3 / 2) = Inr (1 / 25)"
proof -
  have i: "0 \<le> intensity faint_red_ray" "intensity faint_red_ray = 0.05"
    "intensity refracted_ray = 0.048"
    by (simp_all add: faint_red_ray_eq refracted_ray_def)
  have d: "dot (Vector2 (- 1) 0) (Vector2 1 0) \<le> 0"
    by (simp add: dot_def)
  from intensity_never_increases[OF i(1), of 1 GLASS0 "[glass_block]" 1 refracted_ray "[]"
      refracted_ray "[reflected_ray\<lparr>path := [(5, 0), (- 1995, 0)], distance_traveled := 2005,
             active := False\<rparr>]" 1 "3 / 2" "Vector2 (- 1) 0" "Vector2 1 0" "1 / 25"]
    trace_one_pass trace_color_one_pass fresnel_head_on i d
  show ?thesis by simp
qed

subsection \<open>The two routines compared\<close>


















text \<open>
  Towards the agreement of the routines short of the cut-off. Distance travelled never
  decreases along
  \<^verbatim>\<open>trace_color\<close>; an inactive ray passes through \<^verbatim>\<open>trace\<close> unchanged; and the
  twenty passes of \<^verbatim>\<open>trace\<close> are never the binding limit for a ray with a bounce count
  of at least zero: every pass that lets the loop go on counts a bounce or leaves the
  ray inactive.
\<close>

lemma trace_color_dielectric_traveled:
  "trace_color_dielectric G ray bp bn e n1 n2 = Inr (sp, ray', cont)
   \<Longrightarrow> distance_traveled ray' = distance_traveled ray"
  by (auto simp: trace_color_dielectric_def Let_def split: sum.splits if_splits option.splits)

lemma no_hit_traveled: "distance_traveled (no_hit ray) = distance_traveled ray + 2000"
  by (simp add: no_hit_def Let_def)

lemma no_hit_inactive: "\<not> active (no_hit ray)"
  by (simp add: no_hit_def Let_def)

lemma trace_color_step_traveled:
  assumes "trace_color_step g G items ray = Inr (sp, ray', cont)"
  shows "distance_traveled ray \<le> distance_traveled ray'"
proof (cases "nearest_hit g items ray")
  case None
  with assms show ?thesis
    by (auto simp: trace_color_step_def no_hit_traveled split: if_splits)
next
  case (Some h)
  obtain d pt n it where h: "h = (d, pt, n, it)" by (cases h) auto
  have d: "0 \<le> d"
    using nearest_hit_props[of g items ray d pt n it] Some h by simp
  show ?thesis
    using assms d
    by (auto simp: trace_color_step_def Some h Let_def split: if_splits
        dest!: trace_color_dielectric_traveled)
qed

lemma trace_color_loop_traveled:
  "trace_color_loop g G items k ray = Inr (r', out)
   \<Longrightarrow> distance_traveled ray \<le> distance_traveled r'"
proof (induction g G items k ray arbitrary: r' out rule: trace_color_loop.induct)
  case (1 g G items ray)
  then show ?case by simp
next
  case (2 g G items k ray)
  from "2.prems"(1) obtain sp ray1 cont where
    st: "trace_color_step g G items ray = Inr (sp, ray1, cont)"
    by (auto split: sum.splits)
  have t1: "distance_traveled ray \<le> distance_traveled ray1"
    using st by (rule trace_color_step_traveled)
  show ?case
  proof (cases cont)
    case True
    from "2.prems"(1) obtain out2 where
      "trace_color_loop g G items k ray1 = Inr (r', out2)"
      by (auto simp: st True then_rest_def split: sum.splits)
    then have "distance_traveled ray1 \<le> distance_traveled r'"
      using "2.IH"(2)[OF st refl refl True] by simp
    then show ?thesis using t1 by simp
  next
    case False
    from "2.prems"(1) have "r' = ray1"
      by (auto simp: st False then_rest_def split: sum.splits)
    then show ?thesis using t1 by simp
  qed
qed

lemma trace_loop_inactive:
  "\<not> active r \<Longrightarrow> trace_loop g G items k r = Inr (r, [])"
  by (cases k) (simp_all add: trace_step_def then_rest_def)

lemma mirrors_agree:
  assumes M: "\<forall>it\<in>set items. item_type it = PLANE_MIRROR \<or> item_type it = CURVED_MIRROR"
  shows "trace_color_loop g G items k ray = Inr (r', out)
    \<Longrightarrow> distance_traveled r' < 0.99 * MAX_RAY_DISTANCE
    \<Longrightarrow> trace_loop g G items k ray = Inr (r', out)"
proof (induction k arbitrary: ray r' out)
  case 0
  then show ?case by simp
next
  case (Suc k)
  consider (stop) "\<not> active ray \<or> 10 \<le> bounces ray"
    | (spent) "active ray" "bounces ray < 10" "MAX_RAY_DISTANCE \<le> distance_traveled ray"
    | (miss) "active ray" "bounces ray < 10" "distance_traveled ray < MAX_RAY_DISTANCE"
        "nearest_hit g items ray = None"
    | (hit) d pt n it where "active ray" "bounces ray < 10"
        "distance_traveled ray < MAX_RAY_DISTANCE" "nearest_hit g items ray = Some (d, pt, n, it)"
    by (cases "nearest_hit g items ray") force+
  then show ?case
  proof cases
    case stop
    then show ?thesis
      using Suc.prems(1) by (auto simp: trace_color_step_def trace_step_def then_rest_def)
  next
    case spent
    then show ?thesis
      using Suc.prems(1) by (auto simp: trace_color_step_def trace_step_def then_rest_def)
  next
    case miss
    then show ?thesis
      using Suc.prems(1)
      by (auto simp: trace_color_step_def trace_step_def then_rest_def
          trace_loop_inactive[OF no_hit_inactive])
  next
    case hit
    let ?ray1 = "ray\<lparr>path := path ray @ [(vx pt, vy pt)],
        distance_traveled := distance_traveled ray + d, origin := pt,
        direction := reflect (direction ray) n, bounces := bounces ray + 1\<rparr>"
    have "it \<in> set items"
      using nearest_hit_props[OF hit(4)] by simp
    then have m: "item_type it = PLANE_MIRROR \<or> item_type it = CURVED_MIRROR"
      using M by blast
    have stc: "trace_color_step g G items ray = Inr (None, ?ray1, True)"
      using hit m by (auto simp: trace_color_step_def Let_def)
    have rest: "trace_color_loop g G items k ?ray1 = Inr (r', out)"
      using Suc.prems(1) by (auto simp: stc then_rest_def split: sum.splits)
    have "distance_traveled ?ray1 \<le> distance_traveled r'"
      using rest by (rule trace_color_loop_traveled)
    then have far: "distance_traveled ray + d < 0.99 * MAX_RAY_DISTANCE"
      using Suc.prems(2) by simp
    have st: "trace_step g G items ray = Inr (None, [], ?ray1, True)"
      using hit m far
      by (auto simp: trace_step_def Let_def get_intensity_at_distance_def MAX_RAY_DISTANCE_def)
    have "trace_loop g G items k ?ray1 = Inr (r', out)"
      using rest Suc.prems(2) by (rule Suc.IH)
    then show ?thesis
      by (simp add: st then_rest_def)
  qed
qed

lemma trace_polygon_cont:
  "trace_polygon G ray bp bn it = Inr (sp, news, ray', True) \<Longrightarrow> bounces ray' = bounces ray + 1"
  by (auto simp: trace_polygon_def Let_def split: sum.splits if_splits option.splits)

lemma trace_lens_cont:
  "trace_lens G ray bp bn it = Inr (sp, news, ray', True) \<Longrightarrow> bounces ray' = bounces ray + 1"
  by (auto simp: trace_lens_def Let_def split: sum.splits if_splits option.splits)

lemma trace_step_cont:
  "trace_step g G items ray = Inr (sp, news, ray', True)
   \<Longrightarrow> bounces ray < 10 \<and> (\<not> active ray' \<or> bounces ray' = bounces ray + 1)"
  by (auto simp: trace_step_def Let_def no_hit_inactive split: if_splits option.splits
      dest!: trace_polygon_cont trace_lens_cont)

lemma trace_loop_one_more:
  "nat (10 - bounces ray) \<le> k \<Longrightarrow> trace_loop g G items (Suc k) ray = trace_loop g G items k ray"
proof (induction k arbitrary: ray)
  case 0
  then show ?case by (simp add: trace_step_capped then_rest_def)
next
  case (Suc k)
  show ?case
  proof (cases "trace_step g G items ray")
    case (Inl e)
    then show ?thesis by simp
  next
    case (Inr st)
    obtain sp news ray' cont where st: "st = (sp, news, ray', cont)"
      by (cases st) auto
    have "trace_loop g G items (Suc k) ray' = trace_loop g G items k ray'" if cont
    proof (cases "active ray'")
      case False
      then show ?thesis
        using trace_loop_inactive[of ray' g G items "Suc k"] trace_loop_inactive[of ray' g G items k]
        by simp
    next
      case True
      with that trace_step_cont[of g G items ray sp news ray'] Inr st
      have "bounces ray < 10" "bounces ray' = bounces ray + 1" by auto
      with Suc.prems have "nat (10 - bounces ray') \<le> k" by simp
      then show ?thesis by (rule Suc.IH)
    qed
    then show ?thesis
      using trace_loop.simps(2)[of g G items "Suc k" ray] trace_loop.simps(2)[of g G items k ray]
      by (simp add: Inr st)
  qed
qed

lemma trace_loop_more_passes:
  "nat (10 - bounces ray) \<le> k \<Longrightarrow> trace_loop g G items (k + j) ray = trace_loop g G items k ray"
proof (induction j)
  case 0
  show ?case by simp
next
  case (Suc j)
  have "trace_loop g G items (Suc (k + j)) ray = trace_loop g G items (k + j) ray"
    using Suc.prems by (intro trace_loop_one_more) simp
  then show ?case using Suc by simp
qed


text \<open>
  Short of the cut-off the routines do the same on mirrors: in a scene of mirrors only,
  with a common guard, \<^verbatim>\<open>trace\<close> (twenty passes) returns exactly what \<^verbatim>\<open>trace_color\<close>
  (ten passes) returns for every ray whose bounce count is not negative, whenever the ray
  ends with less than 99 percent of the travel budget used, so that no hit came within
  reach of the attenuation check of \<^verbatim>\<open>trace\<close>.
\<close>

lemma trace_agrees_on_mirrors:
  assumes "\<forall>it\<in>set items. item_type it = PLANE_MIRROR \<or> item_type it = CURVED_MIRROR"
    and "0 \<le> bounces ray"
    and "trace_color_loop g G items 10 ray = Inr (r', out)"
    and "distance_traveled r' < 0.99 * MAX_RAY_DISTANCE"
  shows "trace_loop g G items 20 ray = Inr (r', out)"
proof -
  have "trace_loop g G items 10 ray = Inr (r', out)"
    using assms(1,3,4) by (rule mirrors_agree)
  moreover have "trace_loop g G items (10 + 10) ray = trace_loop g G items 10 ray"
    using assms(2) by (intro trace_loop_more_passes) simp
  ultimately show ?thesis by simp
qed


lemma emitted_ray_eq:
  "emitted_ray = \<lparr>origin = Vector2 0 0, direction = Vector2 1 0, color = WHITE,
      wavelength = ''white'', is_white = True, path = [(0, 0)], active = True,
      bounces = 0, material = AIR, intensity = 1, distance_traveled = 0\<rparr>"
  by (simp add: emitted_ray_def Ray_init_def vec_simps length_vec_axis)

definition bounced_ray :: Ray where
  "bounced_ray = emitted_ray\<lparr>path := [(0, 0), (5, 0)], distance_traveled := 5,
      origin := Vector2 5 0, direction := Vector2 (-1) 0, bounces := 1\<rparr>"

definition escaped_ray :: Ray where
  "escaped_ray = bounced_ray\<lparr>path := [(0, 0), (5, 0), (- 1995, 0)], distance_traveled := 2005,
      active := False\<rparr>"

lemma bounced_ray_eq:
  "bounced_ray = \<lparr>origin = Vector2 5 0, direction = Vector2 (- 1) 0, color = WHITE,
      wavelength = ''white'', is_white = True, path = [(0, 0), (5, 0)], active = True,
      bounces = 1, material = AIR, intensity = 1, distance_traveled = 5\<rparr>"
  by (simp add: bounced_ray_def emitted_ray_eq)

lemma emitted_hit:
  "g < 5 \<Longrightarrow> nearest_hit g [mirror_at 5] emitted_ray
     = Some (5, Vector2 5 0, Vector2 (-1) 0, mirror_at 5)"
  by (simp add: nearest_hit_def mirror_segments scan_segment_def emitted_ray_eq get_endpoint_def
      MAX_RAY_DISTANCE_def intersect_def Let_def vec_simps normal_vertical length_vec_axis)

lemma bounced_miss: "0 \<le> g \<Longrightarrow> nearest_hit g [mirror_at 5] bounced_ray = None"
  by (simp add: nearest_hit_def mirror_segments scan_segment_def bounced_ray_eq get_endpoint_def
      MAX_RAY_DISTANCE_def intersect_def Let_def vec_simps length_vec_axis)

lemma emitted_trace_color_step:
  "g < 5 \<Longrightarrow> trace_color_step g G [mirror_at 5] emitted_ray = Inr (None, bounced_ray, True)"
  by (simp add: trace_color_step_def emitted_hit Let_def)
     (simp add: emitted_ray_eq bounced_ray_eq mirror_at_def reflect_head_on MAX_RAY_DISTANCE_def)

lemma bounced_trace_color_step:
  "0 \<le> g \<Longrightarrow> trace_color_step g G [mirror_at 5] bounced_ray = Inr (None, escaped_ray, False)"
  by (simp add: trace_color_step_def bounced_miss Let_def)
     (simp add: bounced_ray_eq escaped_ray_def no_hit_def MAX_RAY_DISTANCE_def vec_simps)

lemma emitted_trace_color_loop:
  "0 \<le> g \<Longrightarrow> g < 5
   \<Longrightarrow> trace_color_loop g G [mirror_at 5] 10 emitted_ray = Inr (escaped_ray, [])"
  using trace_color_loop.simps(2)[of g G "[mirror_at 5]" 9 emitted_ray]
    trace_color_loop.simps(2)[of g G "[mirror_at 5]" 8 bounced_ray]
  by (simp add: emitted_trace_color_step bounced_trace_color_step then_rest_def)


lemma trace_agrees_on_mirrors_witness:
  "item_type (mirror_at 5) = PLANE_MIRROR
   \<and> 0 \<le> bounces emitted_ray
   \<and> trace_color_loop 1 GLASS0 [mirror_at 5] 10 emitted_ray = Inr (escaped_ray, [])
   \<and> distance_traveled escaped_ray < 0.99 * MAX_RAY_DISTANCE
   \<and> trace_loop 1 GLASS0 [mirror_at 5] 20 emitted_ray = Inr (escaped_ray, [])"
proof -
  have m: "\<forall>it\<in>set [mirror_at 5]. item_type it = PLANE_MIRROR \<or> item_type it = CURVED_MIRROR"
    by (simp add: mirror_at_def)
  have b: "0 \<le> bounces emitted_ray"
    by (simp add: emitted_ray_eq)
  have c: "trace_color_loop 1 GLASS0 [mirror_at 5] 10 emitted_ray = Inr (escaped_ray, [])"
    by (rule emitted_trace_color_loop) simp_all
  have d: "distance_traveled escaped_ray < 0.99 * MAX_RAY_DISTANCE"
    by (simp add: escaped_ray_def MAX_RAY_DISTANCE_def)
  from trace_agrees_on_mirrors[OF m b c d] b c d show ?thesis
    by (simp add: mirror_at_def)
qed

subsection \<open>A spent ray at a sensor\<close>

text \<open>
  Two plane mirrors facing each other at \<open>x = 0\<close> and \<open>x = 2000\<close>, and the white ray
  emitted at the origin towards the far one. \<^verbatim>\<open>trace\<close> reflects it twice and stops it at
  the third hit, where it has travelled the whole budget of 6000; no mirror touched its
  stored intensity, which is still \<open>1.0\<close>.
\<close>

definition long_corridor :: "Item list" where
  "long_corridor = [mirror_at 2000, mirror_at 0]"

definition once_reflected :: Ray where
  "once_reflected = emitted_ray\<lparr>path := [(0, 0), (2000, 0)], distance_traveled := 2000,
      origin := Vector2 2000 0, direction := Vector2 (-1) 0, bounces := 1\<rparr>"

definition twice_reflected :: Ray where
  "twice_reflected = emitted_ray\<lparr>path := [(0, 0), (2000, 0), (0, 0)], distance_traveled := 4000,
      origin := Vector2 0 0, direction := Vector2 1 0, bounces := 2\<rparr>"

definition worn_out_ray :: Ray where
  "worn_out_ray = emitted_ray\<lparr>path := [(0, 0), (2000, 0), (0, 0), (2000, 0)],
      distance_traveled := 6000, origin := Vector2 2000 0, direction := Vector2 1 0,
      bounces := 2, active := False\<rparr>"

lemma once_reflected_eq:
  "once_reflected = \<lparr>origin = Vector2 2000 0, direction = Vector2 (- 1) 0, color = WHITE,
      wavelength = ''white'', is_white = True, path = [(0, 0), (2000, 0)], active = True,
      bounces = 1, material = AIR, intensity = 1, distance_traveled = 2000\<rparr>"
  by (simp add: once_reflected_def emitted_ray_eq)

lemma twice_reflected_eq:
  "twice_reflected = \<lparr>origin = Vector2 0 0, direction = Vector2 1 0, color = WHITE,
      wavelength = ''white'', is_white = True, path = [(0, 0), (2000, 0), (0, 0)], active = True,
      bounces = 2, material = AIR, intensity = 1, distance_traveled = 4000\<rparr>"
  by (simp add: twice_reflected_def emitted_ray_eq)

lemma long_hit_1:
  "nearest_hit (1/10) long_corridor emitted_ray
     = Some (2000, Vector2 2000 0, Vector2 (-1) 0, mirror_at 2000)"
  by (simp add: nearest_hit_def long_corridor_def mirror_segments scan_segment_def emitted_ray_eq
      get_endpoint_def MAX_RAY_DISTANCE_def intersect_def Let_def vec_simps normal_vertical
      length_vec_axis)

lemma long_hit_2:
  "nearest_hit (1/10) long_corridor once_reflected
     = Some (2000, Vector2 0 0, Vector2 1 0, mirror_at 0)"
  by (simp add: nearest_hit_def long_corridor_def mirror_segments scan_segment_def
      once_reflected_eq get_endpoint_def MAX_RAY_DISTANCE_def intersect_def Let_def vec_simps
      normal_vertical length_vec_axis)

lemma long_hit_3:
  "nearest_hit (1/10) long_corridor twice_reflected
     = Some (2000, Vector2 2000 0, Vector2 (-1) 0, mirror_at 2000)"
  by (simp add: nearest_hit_def long_corridor_def mirror_segments scan_segment_def
      twice_reflected_eq get_endpoint_def MAX_RAY_DISTANCE_def intersect_def Let_def vec_simps
      normal_vertical length_vec_axis)

lemma long_step_1:
  "trace_step (1/10) G long_corridor emitted_ray = Inr (None, [], once_reflected, True)"
  by (simp add: trace_step_def long_hit_1 Let_def get_intensity_at_distance_def)
     (simp add: emitted_ray_eq once_reflected_eq mirror_at_def reflect_head_on
        MAX_RAY_DISTANCE_def)

lemma long_step_2:
  "trace_step (1/10) G long_corridor once_reflected = Inr (None, [], twice_reflected, True)"
  by (simp add: trace_step_def long_hit_2 Let_def get_intensity_at_distance_def)
     (simp add: once_reflected_eq twice_reflected_eq mirror_at_def reflect_head_on
        MAX_RAY_DISTANCE_def)

lemma long_step_3:
  "trace_step (1/10) G long_corridor twice_reflected = Inr (None, [], worn_out_ray, False)"
  by (simp add: trace_step_def long_hit_3 Let_def get_intensity_at_distance_def)
     (simp add: twice_reflected_eq worn_out_ray_def emitted_ray_eq MAX_RAY_DISTANCE_def)

lemma long_trace: "trace G long_corridor emitted_ray = Inr (worn_out_ray, [])"
  using trace_loop.simps(2)[of "1/10" G long_corridor 19 emitted_ray]
    trace_loop.simps(2)[of "1/10" G long_corridor 18 once_reflected]
    trace_loop.simps(2)[of "1/10" G long_corridor 17 twice_reflected]
  by (simp add: trace_def long_step_1 long_step_2 long_step_3 then_rest_def)

lemma check_hit_worn_out: "check_hit (Sensor_init 1000 0 WHITE 50) worn_out_ray"
  by (simp add: check_hit_def worn_out_ray_def emitted_ray_eq Sensor_init_def Let_def sub_vec_def
      dot_def add_vec_def mul_vec_def length_vec_def SENSOR_RADIUS_def)

text \<open>
  C1 as stated fails: \<^verbatim>\<open>check_hit\<close> and \<^verbatim>\<open>update\<close> read the stored field
  \<^verbatim>\<open>ray.intensity\<close>, never the distance travelled. The ray above, as \<^verbatim>\<open>trace\<close> returns
  it, has travelled exactly the budget, so its attenuation
  \<open>clamp(1 - traveled / MAX_RAY_DISTANCE, 0, 1)\<close> is \<open>0\<close>, below the floor \<open>0.2\<close>; a
  white-seeking sensor of radius 35 at \<open>(1000, 0)\<close>, on its path, still admits it and
  reports a rising edge.
\<close>

theorem sensor_ignores_distance_counterexample:
  "trace GLASS0 long_corridor emitted_ray = Inr (worn_out_ray, [])
   \<and> distance_traveled worn_out_ray = MAX_RAY_DISTANCE
   \<and> max 0 (min 1 (1 - distance_traveled worn_out_ray / MAX_RAY_DISTANCE)) < (0.2::real)
   \<and> intensity worn_out_ray = 1
   \<and> check_hit (Sensor_init 1000 0 WHITE 50) worn_out_ray
   \<and> snd (update (Sensor_init 1000 0 WHITE 50) [worn_out_ray])"
proof -
  let ?S = "Sensor_init 1000 0 WHITE 50"
  have h: "check_hit ?S worn_out_ray"
    by (rule check_hit_worn_out)
  have cm: "color_match ?S worn_out_ray"
    by (simp add: color_match_def Sensor_init_def worn_out_ray_def emitted_ray_eq)
  have i: "intensity worn_out_ray = 1"
    by (simp add: worn_out_ray_def emitted_ray_eq)
  have a: "sensor_active (fst (update ?S [worn_out_ray]))"
    using h cm i update_active[of ?S "[worn_out_ray]"] by simp
  have w: "\<not> was_active (fst (update ?S [worn_out_ray]))"
    by (simp add: update_def Let_def Sensor_init_def)
  have u: "snd (update ?S [worn_out_ray])"
    using a w by (simp add: update_def Let_def split: if_splits)
  have d: "distance_traveled worn_out_ray = 6000"
    by (simp add: worn_out_ray_def)
  have m: "max 0 (min 1 (1 - distance_traveled worn_out_ray / MAX_RAY_DISTANCE)) < (0.2::real)"
    by (simp add: d MAX_RAY_DISTANCE_def)
  from long_trace[of GLASS0] h u i m show ?thesis
    by (simp add: d MAX_RAY_DISTANCE_def)
qed

text \<open>
  C1 as amended: the sensor hit-test admits a ray only if its stored intensity field is
  at least \<open>0.2\<close>; the distance travelled plays no part in \<^verbatim>\<open>check_hit\<close>; and
  \<^verbatim>\<open>update\<close> activates the sensor exactly when some ray has stored intensity at least
  \<open>0.2\<close>, hits and matches in colour.
\<close>

theorem sensor_admits_by_stored_intensity:
  "(check_hit s r \<longrightarrow> intensity r \<ge> 0.2)
   \<and> check_hit s (r\<lparr>distance_traveled := d\<rparr>) = check_hit s r
   \<and> (sensor_active (fst (update s rays))
        \<longleftrightarrow> (\<exists>r\<in>set rays. intensity r \<ge> 0.2 \<and> check_hit s r \<and> color_match s r))"
  using update_active[of s rays] by (simp add: check_hit_def)

theorem sensor_admits_by_stored_intensity_witness:
  "check_hit (Sensor_init 1000 0 WHITE 50) worn_out_ray
   \<and> intensity worn_out_ray \<ge> 0.2
   \<and> check_hit (Sensor_init 1000 0 WHITE 50) (worn_out_ray\<lparr>distance_traveled := 0\<rparr>)
   \<and> sensor_active (fst (update (Sensor_init 1000 0 WHITE 50) [worn_out_ray]))"
proof -
  have cm: "color_match (Sensor_init 1000 0 WHITE 50) worn_out_ray"
    by (simp add: color_match_def Sensor_init_def worn_out_ray_def emitted_ray_eq)
  from check_hit_worn_out cm
    sensor_admits_by_stored_intensity[of "Sensor_init 1000 0 WHITE 50" worn_out_ray 0
      "[worn_out_ray]"]
  show ?thesis by simp
qed

subsection \<open>Termination\<close>

text \<open>
  The recursion of both loops is well-founded on every input: the order is the pair of
  the distance of the bounce count from the cap and the number of passes left, as in
  the termination proofs of the two functions.
\<close>

lemma trace_color_loop_total: "trace_color_loop_dom (g, G, items, k, ray)"
proof -
  have "All trace_color_loop_dom"
  proof (relation "measures [\<lambda>(g, G, items, k, ray). nat (10 - bounces ray),
                     \<lambda>(g, G, items, k, ray). k]", goal_cases)
    case 1
    show ?case by simp
  next
    case (2 g G items k ray x sp y ray' cont r)
    then show ?case
      using trace_color_step_spawn[of g G items ray r ray' cont] by auto
  next
    case (3 g G items k ray x sp y ray' cont)
    then show ?case
      using trace_color_step_bounces[of g G items ray sp ray' cont] by auto
  qed
  then show ?thesis by simp
qed

lemma trace_loop_total: "trace_loop_dom (g, G, items, k, ray)"
proof -
  have "All trace_loop_dom"
  proof (relation "measures [\<lambda>(g, G, items, k, ray). nat (10 - bounces ray),
                     \<lambda>(g, G, items, k, ray). k]", goal_cases)
    case 1
    show ?case by simp
  next
    case (2 g G items k ray x sp y news z ray' cont s r)
    then show ?case
      using trace_step_spawn[of g G items ray r news ray' cont] by auto
  next
    case (3 g G items k ray x sp y news z ray' cont)
    then show ?case
      using trace_step_bounces[of g G items ray sp news ray' cont] by auto
  qed
  then show ?thesis by simp
qed

text \<open>
  How many rays a call can append to \<^verbatim>\<open>self.rays\<close>. A pass of \<^verbatim>\<open>trace_color\<close> spawns
  at most one sibling; a pass of \<^verbatim>\<open>trace\<close> at most one sibling and six dispersed rays,
  after which the loop ends. Every spawned ray starts one bounce above its parent, and a
  pass that lets the loop go on counts a bounce (or leaves the ray inactive).
\<close>

lemma pow_cap:
  "b < 10 \<Longrightarrow> (2::nat) ^ nat (10 - b) = 2 * 2 ^ nat (10 - (b + 1))"
proof -
  assume "b < 10"
  then have "nat (10 - b) = Suc (nat (10 - (b + 1)))" by simp
  then show ?thesis by simp
qed

lemma trace_color_dielectric_cont:
  "trace_color_dielectric G ray bp bn e n1 n2 = Inr (sp, ray', True)
   \<Longrightarrow> bounces ray' = bounces ray + 1"
  by (auto simp: trace_color_dielectric_def Let_def split: sum.splits if_splits option.splits)

lemma trace_color_step_cont:
  "trace_color_step g G items ray = Inr (sp, ray', True)
   \<Longrightarrow> bounces ray < 10 \<and> bounces ray' = bounces ray + 1"
  by (auto simp: trace_color_step_def Let_def split: if_splits option.splits
      dest!: trace_color_dielectric_cont)

lemma trace_color_loop_count:
  "trace_color_loop g G items k ray = Inr (r', out)
   \<Longrightarrow> Suc (length out) \<le> 2 ^ nat (10 - bounces ray)"
proof (induction g G items k ray arbitrary: r' out rule: trace_color_loop.induct)
  case (1 g G items ray)
  then show ?case by simp
next
  case (2 g G items k ray)
  from "2.prems" obtain sp ray1 cont where
    st: "trace_color_step g G items ray = Inr (sp, ray1, cont)"
    by (auto split: sum.splits)
  from "2.prems" obtain out1 out2 where
    sib: "(case sp of None \<Rightarrow> Inr [] | Some r \<Rightarrow> traced (trace_color_loop 1.0 G items 10 r))
            = Inr out1"
    and rest: "(if cont then trace_color_loop g G items k ray1 else Inr (ray1, [])) = Inr (r', out2)"
    and out: "out = out1 @ out2"
    by (auto simp: st then_rest_def split: sum.splits)
  have l1: "length out1 \<le> (if sp = None then 0 else 2 ^ nat (10 - (bounces ray + 1)))"
  proof (cases sp)
    case None
    with sib show ?thesis by simp
  next
    case (Some r)
    from sib Some obtain rf outf where
      f: "trace_color_loop 1.0 G items 10 r = Inr (rf, outf)" and o1: "out1 = rf # outf"
      by (auto simp: traced_def split: sum.splits)
    have "bounces r = bounces ray + 1"
      using trace_color_step_spawn[of g G items ray r ray1 cont] st Some by simp
    then show ?thesis
      using "2.IH"(1)[OF st refl refl Some f] Some o1 by simp
  qed
  have l2: "Suc (length out2) \<le> (if cont then 2 ^ nat (10 - (bounces ray + 1)) else 1)"
  proof (cases cont)
    case True
    then have "bounces ray1 = bounces ray + 1"
      using trace_color_step_cont[of g G items ray sp ray1] st by simp
    then show ?thesis
      using "2.IH"(2)[OF st refl refl True] rest True by simp
  next
    case False
    with rest show ?thesis by simp
  qed
  show ?case
  proof (cases "sp = None \<and> \<not> cont")
    case True
    with l1 l2 out show ?thesis by simp
  next
    case False
    have b: "bounces ray < 10"
    proof (cases sp)
      case None
      with False have cont by simp
      then have "trace_color_step g G items ray = Inr (sp, ray1, True)"
        using st by simp
      then show ?thesis
        by (rule trace_color_step_cont[THEN conjunct1])
    next
      case (Some r)
      then have "trace_color_step g G items ray = Inr (Some r, ray1, cont)"
        using st by simp
      then show ?thesis
        by (rule trace_color_step_spawn[THEN conjunct2])
    qed
    define p :: nat where "p = 2 ^ nat (10 - (bounces ray + 1))"
    have one: "1 \<le> p" by (simp add: p_def)
    have "length out1 \<le> p" "Suc (length out2) \<le> p"
      using l1 l2 one unfolding p_def[symmetric] by (auto split: if_splits)
    then have "Suc (length out) \<le> 2 * p"
      using out by simp
    then show ?thesis
      using pow_cap[OF b] by (simp add: p_def)
  qed
qed

lemma disperse_length:
  "disperse G ray bp bn T bands = Inr news \<Longrightarrow> length news \<le> length bands"
  by (induction bands arbitrary: news) (auto split: sum.splits option.splits)

lemma disperse_spectrum:
  "disperse G ray bp bn T SPECTRUM = Inr news
   \<Longrightarrow> length news \<le> 6 \<and> (\<forall>r\<in>set news. bounces r = bounces ray + 1)"
  using disperse_length[of G ray bp bn T SPECTRUM news] disperse_bounces[of G ray bp bn T SPECTRUM news]
  by (simp add: SPECTRUM_def)

lemma trace_polygon_news_src:
  "trace_polygon G ray bp bn it = Inr (sp, news, ray', cont)
   \<Longrightarrow> news = [] \<or> (\<not> cont \<and> (\<exists>T. disperse G ray bp bn T SPECTRUM = Inr news))"
  by (auto simp: trace_polygon_def Let_def split: sum.splits if_splits option.splits)

lemma trace_lens_news_src:
  "trace_lens G ray bp bn it = Inr (sp, news, ray', cont)
   \<Longrightarrow> news = [] \<or> (\<not> cont \<and> (\<exists>T. disperse G ray bp bn T SPECTRUM = Inr news))"
  by (auto simp: trace_lens_def Let_def split: sum.splits if_splits option.splits)

lemma trace_polygon_news:
  assumes "trace_polygon G ray bp bn it = Inr (sp, news, ray', cont)"
  shows "length news \<le> 6 \<and> (news \<noteq> [] \<longrightarrow> \<not> cont)
         \<and> (\<forall>r\<in>set news. bounces r = bounces ray + 1)"
  using trace_polygon_news_src[OF assms] disperse_spectrum[of G ray bp bn _ news]
  by auto

lemma trace_lens_news:
  assumes "trace_lens G ray bp bn it = Inr (sp, news, ray', cont)"
  shows "length news \<le> 6 \<and> (news \<noteq> [] \<longrightarrow> \<not> cont)
         \<and> (\<forall>r\<in>set news. bounces r = bounces ray + 1)"
  using trace_lens_news_src[OF assms] disperse_spectrum[of G ray bp bn _ news]
  by auto

lemma trace_step_news:
  assumes "trace_step g G items ray = Inr (sp, news, ray', cont)"
  shows "length news \<le> 6 \<and> (news \<noteq> [] \<longrightarrow> \<not> cont)
         \<and> (\<forall>r\<in>set news. bounces r = bounces ray + 1)"
proof -
  have "news = [] \<or> (\<exists>ray1 bp bn it. bounces ray1 = bounces ray
          \<and> (trace_polygon G ray1 bp bn it = Inr (sp, news, ray', cont)
               \<or> trace_lens G ray1 bp bn it = Inr (sp, news, ray', cont)))"
    using assms
    by (auto simp: trace_step_def Let_def split: if_splits option.splits)
  then show ?thesis
  proof
    assume "news = []"
    then show ?thesis by simp
  next
    assume "\<exists>ray1 bp bn it. bounces ray1 = bounces ray
          \<and> (trace_polygon G ray1 bp bn it = Inr (sp, news, ray', cont)
               \<or> trace_lens G ray1 bp bn it = Inr (sp, news, ray', cont))"
    then obtain ray1 bp bn it where b: "bounces ray1 = bounces ray"
      and t: "trace_polygon G ray1 bp bn it = Inr (sp, news, ray', cont)
               \<or> trace_lens G ray1 bp bn it = Inr (sp, news, ray', cont)"
      by blast
    from t have "length news \<le> 6 \<and> (news \<noteq> [] \<longrightarrow> \<not> cont)
         \<and> (\<forall>r\<in>set news. bounces r = bounces ray1 + 1)"
      using trace_polygon_news trace_lens_news by blast
    then show ?thesis by (simp add: b)
  qed
qed

lemma trace_polygon_spawn_color:
  "trace_polygon G ray bp bn it = Inr (Some (By_trace_color r), news, ray', cont)
   \<Longrightarrow> bounces r = bounces ray + 1"
  by (auto simp: trace_polygon_def sibling_def Let_def
      split: sum.splits if_splits option.splits)

lemma trace_lens_spawn_color:
  "trace_lens G ray bp bn it = Inr (Some (By_trace_color r), news, ray', cont)
   \<Longrightarrow> bounces r = bounces ray + 1"
  by (auto simp: trace_lens_def sibling_def Let_def
      split: sum.splits if_splits option.splits)

lemma trace_step_spawn_color:
  "trace_step g G items ray = Inr (Some (By_trace_color r), news, ray', cont)
   \<Longrightarrow> bounces r = bounces ray + 1"
  by (auto simp: trace_step_def Let_def split: if_splits option.splits
      dest!: trace_polygon_spawn_color trace_lens_spawn_color)

lemma trace_step_idle:
  "trace_step g G items ray = Inr (sp, news, ray', cont) \<Longrightarrow> \<not> bounces ray < 10
   \<Longrightarrow> sp = None \<and> news = [] \<and> \<not> cont"
  by (simp add: trace_step_def)

lemma trace_dispersed_count:
  "trace_dispersed G items news = Inr out \<Longrightarrow> \<forall>r\<in>set news. bounces r = c
   \<Longrightarrow> length out \<le> length news * 2 ^ nat (10 - c)"
proof (induction news arbitrary: out)
  case Nil
  then show ?case by simp
next
  case (Cons r news)
  from Cons.prems(1) obtain rf outf rest where
    f: "trace_color G items r = Inr (rf, outf)"
    and r: "trace_dispersed G items news = Inr rest"
    and o: "out = outf @ [rf] @ rest"
    by (auto split: sum.splits)
  have "Suc (length outf) \<le> 2 ^ nat (10 - c)"
    using trace_color_loop_count[of 1 G items 10 r rf outf] f Cons.prems(2)
    by (simp add: trace_color_def)
  moreover have "length rest \<le> length news * 2 ^ nat (10 - c)"
    using r Cons.prems(2) by (intro Cons.IH) auto
  ultimately show ?case using o by simp
qed

lemma trace_loop_count:
  "trace_loop g G items k ray = Inr (r', out)
   \<Longrightarrow> Suc (length out) \<le> 7 * 2 ^ nat (10 - bounces ray)"
proof (induction g G items k ray arbitrary: r' out rule: trace_loop.induct)
  case (1 g G items ray)
  then show ?case by simp
next
  case (2 g G items k ray)
  from "2.prems" obtain sp news ray1 cont where
    st: "trace_step g G items ray = Inr (sp, news, ray1, cont)"
    by (auto split: sum.splits)
  from "2.prems" obtain out1 out2 out3 where
    sib: "(case sp of None \<Rightarrow> Inr []
           | Some (By_trace r) \<Rightarrow> traced (trace_loop 0.1 G items 20 r)
           | Some (By_trace_color r) \<Rightarrow> traced (trace_color G items r)) = Inr out1"
    and disp: "trace_dispersed G items news = Inr out2"
    and rest: "(if cont then trace_loop g G items k ray1 else Inr (ray1, [])) = Inr (r', out3)"
    and out: "out = out1 @ out2 @ out3"
    by (auto simp: st then_rest_def split: sum.splits)
  define p :: nat where "p = 2 ^ nat (10 - (bounces ray + 1))"
  have one: "1 \<le> p" by (simp add: p_def)
  have l1: "length out1 \<le> 7 * p"
  proof (cases sp)
    case None
    with sib show ?thesis by simp
  next
    case (Some s)
    show ?thesis
    proof (cases s)
      case (By_trace r)
      from sib Some By_trace obtain rf outf where
        f: "trace_loop 0.1 G items 20 r = Inr (rf, outf)" and o1: "out1 = rf # outf"
        by (auto simp: traced_def split: sum.splits)
      have "bounces r = bounces ray + 1"
        using trace_step_spawn[of g G items ray r news ray1 cont] st Some By_trace by simp
      then show ?thesis
        using "2.IH"(1)[OF st refl refl refl Some By_trace f] o1 by (simp add: p_def)
    next
      case (By_trace_color r)
      from sib Some By_trace_color obtain rf outf where
        f: "trace_color G items r = Inr (rf, outf)" and o1: "out1 = rf # outf"
        by (auto simp: traced_def split: sum.splits)
      have "bounces r = bounces ray + 1"
        using trace_step_spawn_color[of g G items ray r news ray1 cont] st Some By_trace_color
        by simp
      then have "Suc (length outf) \<le> p"
        using trace_color_loop_count[of 1 G items 10 r rf outf] f
        by (simp add: trace_color_def p_def)
      then show ?thesis using o1 by simp
    qed
  qed
  have n: "length news \<le> 6" "news \<noteq> [] \<longrightarrow> \<not> cont"
    "\<forall>r\<in>set news. bounces r = bounces ray + 1"
    using trace_step_news[OF st] by simp_all
  have "length out2 \<le> length news * p"
    using trace_dispersed_count[OF disp n(3)] by (simp add: p_def)
  also have "\<dots> \<le> 6 * p"
    using n(1) by simp
  finally have l2: "length out2 \<le> 6 * p" .
  have l2': "news = [] \<Longrightarrow> out2 = []"
    using disp by simp
  have l3: "Suc (length out3) \<le> (if cont then 7 * p else 1)"
  proof (cases cont)
    case False
    with rest show ?thesis by simp
  next
    case True
    with st have c: "\<not> active ray1 \<or> bounces ray1 = bounces ray + 1"
      using trace_step_cont[of g G items ray sp news ray1] by simp
    show ?thesis
    proof (cases "active ray1")
      case False
      then have "out3 = []"
        using rest True trace_loop_inactive[of ray1 g G items k] by simp
      then show ?thesis using True one by simp
    next
      case active: True
      with c have "bounces ray1 = bounces ray + 1" by simp
      then show ?thesis
        using "2.IH"(2)[OF st refl refl refl True] rest True by (simp add: p_def)
    qed
  qed
  show ?case
  proof (cases "bounces ray < 10")
    case False
    then have "sp = None \<and> news = [] \<and> \<not> cont"
      using st by (rule trace_step_idle[rotated])
    then have "out = []"
      using sib l2' rest out by simp
    then show ?thesis by simp
  next
    case True
    have "Suc (length out) \<le> 14 * p"
    proof (cases "news = []")
      case True
      then show ?thesis
        using l1 l2' l3 out one by (auto split: if_splits)
    next
      case False
      then have "\<not> cont" using n(2) by simp
      then show ?thesis
        using l1 l2 l3 out one by simp
    qed
    then show ?thesis
      using pow_cap[OF True] by (simp add: p_def)
  qed
qed

text \<open>A red ray of full intensity at the glass block: \<^verbatim>\<open>trace\<close> spawns its reflection.\<close>

definition bright_red_ray :: Ray where
  "bright_red_ray = Ray_init (Vector2 0 0) (Vector2 1 0) RED ''red'' False 1.0"

lemma bright_red_ray_eq:
  "bright_red_ray = \<lparr>origin = Vector2 0 0, direction = Vector2 1 0, color = RED,
      wavelength = ''red'', is_white = False, path = [(0, 0)], active = True,
      bounces = 0, material = AIR, intensity = 1, distance_traveled = 0\<rparr>"
  by (simp add: bright_red_ray_def Ray_init_def vec_simps length_vec_axis)

lemma bright_hit:
  "nearest_hit (1/10) [glass_block] bright_red_ray
     = Some (5, Vector2 5 0, Vector2 (-1) 0, glass_block)"
  by (simp add: nearest_hit_def block_segments scan_segment_def bright_red_ray_eq get_endpoint_def
      MAX_RAY_DISTANCE_def intersect_def Let_def vec_simps normal_vertical length_vec_axis)

lemma trace_step_bright:
  "trace_step (1/10) GLASS0 [glass_block] bright_red_ray
   = Inr (Some (By_trace ((Ray_init (Vector2 5 0) (Vector2 (-1) 0) RED ''red'' False 0.04)
                  \<lparr>distance_traveled := 5, bounces := 1\<rparr>)),
          [],
          bright_red_ray\<lparr>path := [(0, 0), (5, 0)], distance_traveled := 5,
            origin := Vector2 5 0, intensity := 0.96, material := GLASS0, bounces := 1\<rparr>,
          True)"
  using bright_hit
  by (simp add: trace_step_def Let_def)
     (simp add: bright_red_ray_eq glass_block_def get_intensity_at_distance_def
        trace_polygon_def MAX_RAY_DISTANCE_def iors_red fresnel_head_on refract_head_on
        reflect_head_on sibling_def Ray_init_def vec_simps length_vec_axis Let_def
        GLASS0_not_AIR GLASS0_not_AIR[symmetric])


text \<open>
  C9: every call of \<^verbatim>\<open>trace\<close> and \<^verbatim>\<open>trace_color\<close> terminates, for every ray, scene,
  guard and number of passes: the recursion relation of either loop is well-founded at
  every input. A sibling is spawned only below the bounce cap and starts with the bounce
  count of its parent plus one. A call that returns has appended fewer than
  \<open>7 \<cdot> 2\<^bsup>10 - bounces\<^esup>\<close> rays (\<^verbatim>\<open>trace\<close>) or \<open>2\<^bsup>10 - bounces\<^esup>\<close> rays
  (\<^verbatim>\<open>trace_color\<close>); the only other outcome is \<^verbatim>\<open>ZeroDivisionError\<close>.
\<close>

theorem trace_terminates:
  "trace_loop_dom (g, G, items, k, ray)
   \<and> trace_color_loop_dom (g, G, items, k, ray)
   \<and> (trace_step g G items ray = Inr (Some (By_trace r), news, ray', cont)
        \<longrightarrow> bounces r = bounces ray + 1 \<and> bounces ray < 10)
   \<and> (trace_color_step g G items ray = Inr (Some r, ray', cont)
        \<longrightarrow> bounces r = bounces ray + 1 \<and> bounces ray < 10)
   \<and> (case trace G items ray of
         Inl e \<Rightarrow> True
       | Inr (rf, out) \<Rightarrow> length out < 7 * 2 ^ nat (10 - bounces ray))
   \<and> (case trace_color G items ray of
         Inl e \<Rightarrow> True
       | Inr (rf, out) \<Rightarrow> length out < 2 ^ nat (10 - bounces ray))"
proof -
  have a: "case trace G items ray of
         Inl e \<Rightarrow> True
       | Inr (rf, out) \<Rightarrow> length out < 7 * 2 ^ nat (10 - bounces ray)"
    using trace_loop_count[of "1/10" G items 20 ray]
    by (auto simp: trace_def less_eq_Suc_le split: sum.splits)
  have b: "case trace_color G items ray of
         Inl e \<Rightarrow> True
       | Inr (rf, out) \<Rightarrow> length out < 2 ^ nat (10 - bounces ray)"
    using trace_color_loop_count[of 1 G items 10 ray]
    by (auto simp: trace_color_def less_eq_Suc_le split: sum.splits)
  from a b trace_loop_total[of g G items k ray] trace_color_loop_total[of g G items k ray]
    trace_step_spawn[of g G items ray r news ray' cont]
    trace_color_step_spawn[of g G items ray r ray' cont]
  show ?thesis by blast
qed

theorem trace_terminates_witness:
  "trace_step (1/10) GLASS0 [glass_block] bright_red_ray
   = Inr (Some (By_trace ((Ray_init (Vector2 5 0) (Vector2 (-1) 0) RED ''red'' False 0.04)
                  \<lparr>distance_traveled := 5, bounces := 1\<rparr>)),
          [],
          bright_red_ray\<lparr>path := [(0, 0), (5, 0)], distance_traveled := 5,
            origin := Vector2 5 0, intensity := 0.96, material := GLASS0, bounces := 1\<rparr>,
          True)
   \<and> bounces ((Ray_init (Vector2 5 0) (Vector2 (-1) 0) RED ''red'' False 0.04)
                  \<lparr>distance_traveled := 5, bounces := 1\<rparr>) = bounces bright_red_ray + 1
   \<and> bounces bright_red_ray < 10
   \<and> trace_color_step 1 GLASS0 [glass_block] faint_red_ray
       = Inr (Some reflected_ray, refracted_ray, True)
   \<and> bounces reflected_ray = bounces faint_red_ray + 1
   \<and> bounces faint_red_ray < 10"
  using trace_step_bright trace_color_step_block
    trace_terminates[of "1/10" GLASS0 "[glass_block]" 0 bright_red_ray
      "(Ray_init (Vector2 5 0) (Vector2 (-1) 0) RED ''red'' False 0.04)
                  \<lparr>distance_traveled := 5, bounces := 1\<rparr>" "[]"
      "bright_red_ray\<lparr>path := [(0, 0), (5, 0)], distance_traveled := 5,
            origin := Vector2 5 0, intensity := 0.96, material := GLASS0, bounces := 1\<rparr>" True]
    trace_terminates[of 1 GLASS0 "[glass_block]" 0 faint_red_ray reflected_ray "[]"
      refracted_ray True]
  by (simp add: bright_red_ray_eq faint_red_ray_eq reflected_ray_eq)

end
